theory Spec2Isabelle
  imports Complex_Main "HOL-Library.Sublist"
begin

section \<open>The weather service of main.go\<close>

text \<open>
  The service answers \<^verbatim>\<open>GET /weather?lat=&lon=\<close>: it loads the API key from the environment,
  validates the two coordinates, asks the OpenWeather API, and formats the answer.
  Every function of \<^verbatim>\<open>main.go\<close> is embedded below under its own name. Go strings are byte
  sequences, hence \<^typ>\<open>string\<close>; a Go \<^verbatim>\<open>error\<close> is its message; \<^verbatim>\<open>float64\<close> is the type
  \<open>float64\<close> of the next subsection. The functions of Go's standard library that
  \<^verbatim>\<open>main.go\<close> calls are embedded from their documentation, each named after the library
  function.
\<close>

subsection \<open>The type float64\<close>

text \<open>
  A \<^verbatim>\<open>float64\<close> is a finite binary64 number (sign bit and magnitude, so that the two
  zeros differ), an infinity, or NaN. The magnitude of a finite value is kept as the
  rational number it denotes.
\<close>

datatype float64 = Finite bool rat | Infinity bool | NaN

fun fval :: "float64 \<Rightarrow> rat" where
  "fval (Finite s m) = (if s then - m else m)"
| "fval (Infinity s) = 0"
| "fval NaN = 0"

text \<open>Go's \<^verbatim>\<open><\<close> and \<^verbatim>\<open>>\<close> on float64: every comparison with NaN is false.\<close>

fun flt :: "float64 \<Rightarrow> float64 \<Rightarrow> bool" where
  "flt NaN y = False"
| "flt x NaN = False"
| "flt (Infinity s) (Infinity t) = (s \<and> \<not> t)"
| "flt (Infinity s) (Finite t n) = s"
| "flt (Finite s m) (Infinity t) = (\<not> t)"
| "flt (Finite s m) (Finite t n) = (fval (Finite s m) < fval (Finite t n))"

definition fgt :: "float64 \<Rightarrow> float64 \<Rightarrow> bool" where
  "fgt x y = flt y x"

text \<open>
  Rounding to binary64, round-to-nearest with ties to even: a positive rational \<open>q\<close>
  with \<open>2\<^sup>e \<le> q < 2\<^sup>e\<^sup>+\<^sup>1\<close> is rounded to a multiple of \<open>2\<^sup>e\<^sup>-\<^sup>5\<^sup>2\<close>, where \<open>e\<close> is at least
  \<open>-1022\<close> (below that the numbers are subnormal and the spacing stays \<open>2\<^sup>-\<^sup>1\<^sup>0\<^sup>7\<^sup>4\<close>); a result
  of \<open>2\<^sup>1\<^sup>0\<^sup>2\<^sup>4\<close> or more overflows (\<open>None\<close>).
\<close>

definition pow2 :: "int \<Rightarrow> rat" where
  "pow2 e = (if 0 \<le> e then 2 ^ nat e else 1 / 2 ^ nat (- e))"

function bit_length :: "int \<Rightarrow> int" where
  "bit_length n = (if n \<le> 0 then 0 else 1 + bit_length (n div 2))"
  by pat_completeness auto
termination
  by (relation "measure nat") auto

declare bit_length.simps [simp del]

definition ilog2 :: "rat \<Rightarrow> int" where
  "ilog2 q = (if 1 \<le> q then bit_length \<lfloor>q\<rfloor> - 1 else - bit_length (\<lceil>1 / q\<rceil> - 1))"

definition round_half_even :: "rat \<Rightarrow> int" where
  "round_half_even q = (let f = \<lfloor>q\<rfloor>; r = q - of_int f
     in if r < 1 / 2 then f else if 1 / 2 < r then f + 1 else if even f then f else f + 1)"

definition round64 :: "rat \<Rightarrow> rat option" where
  "round64 q = (if q = 0 then Some 0 else
     (let e = max (ilog2 q) (- 1022); u = pow2 (e - 52);
          r = of_int (round_half_even (q / u)) * u
      in if pow2 1024 \<le> r then None else Some r))"

definition mk_float :: "bool \<Rightarrow> rat \<Rightarrow> float64" where
  "mk_float s q = (case round64 q of None \<Rightarrow> Infinity s | Some r \<Rightarrow> Finite s r)"

text \<open>The float64 operations \<^verbatim>\<open>*\<close>, \<^verbatim>\<open>/\<close> and \<^verbatim>\<open>+\<close>: the exact result, rounded.\<close>

fun fmul :: "float64 \<Rightarrow> float64 \<Rightarrow> float64" where
  "fmul NaN y = NaN"
| "fmul x NaN = NaN"
| "fmul (Infinity s) (Infinity t) = Infinity (s \<noteq> t)"
| "fmul (Infinity s) (Finite t n) = (if n = 0 then NaN else Infinity (s \<noteq> t))"
| "fmul (Finite s m) (Infinity t) = (if m = 0 then NaN else Infinity (s \<noteq> t))"
| "fmul (Finite s m) (Finite t n) = mk_float (s \<noteq> t) (m * n)"

fun fdiv :: "float64 \<Rightarrow> float64 \<Rightarrow> float64" where
  "fdiv NaN y = NaN"
| "fdiv x NaN = NaN"
| "fdiv (Infinity s) (Infinity t) = NaN"
| "fdiv (Infinity s) (Finite t n) = Infinity (s \<noteq> t)"
| "fdiv (Finite s m) (Infinity t) = Finite (s \<noteq> t) 0"
| "fdiv (Finite s m) (Finite t n) =
     (if n = 0 then (if m = 0 then NaN else Infinity (s \<noteq> t))
      else mk_float (s \<noteq> t) (m / n))"

fun fadd :: "float64 \<Rightarrow> float64 \<Rightarrow> float64" where
  "fadd NaN y = NaN"
| "fadd x NaN = NaN"
| "fadd (Infinity s) (Infinity t) = (if s = t then Infinity s else NaN)"
| "fadd (Infinity s) (Finite t n) = Infinity s"
| "fadd (Finite s m) (Infinity t) = Infinity t"
| "fadd (Finite s m) (Finite t n) =
     (let v = fval (Finite s m) + fval (Finite t n)
      in if v = 0 then Finite (s \<and> t) 0 else mk_float (v < 0) \<bar>v\<bar>)"

subsection \<open>Formatting numbers\<close>

definition digit :: "int \<Rightarrow> char" where
  "digit d = ''0123456789'' ! nat (d mod 10)"

function dec :: "int \<Rightarrow> string" where
  "dec n = (if n < 10 then [digit n] else dec (n div 10) @ [digit (n mod 10)])"
  by pat_completeness auto
termination
  by (relation "measure nat") auto

declare dec.simps [simp del]

fun frac_digits :: "nat \<Rightarrow> int \<Rightarrow> string" where
  "frac_digits p n = (if p = 0 then [] else frac_digits (p - 1) (n div 10) @ [digit (n mod 10)])"

declare frac_digits.simps [simp del]

text \<open>
  The verbs \<^verbatim>\<open>%f\<close> (\<open>p = 6\<close>) and \<^verbatim>\<open>%.0f\<close> (\<open>p = 0\<close>) of package fmt, which print
  \<^verbatim>\<open>strconv.FormatFloat(x, 'f', p, 64)\<close>: the exact value rounded to \<open>p\<close> decimals, ties to
  even, the minus sign taken from the sign bit; \<^verbatim>\<open>NaN\<close>, \<^verbatim>\<open>+Inf\<close> and \<^verbatim>\<open>-Inf\<close> otherwise.
\<close>

definition fmt_digits :: "bool \<Rightarrow> nat \<Rightarrow> int \<Rightarrow> string" where
  "fmt_digits s p n =
     (if s then ''-'' else '''') @ dec (n div 10 ^ p) @
     (if p = 0 then '''' else ''.'' @ frac_digits p (n mod 10 ^ p))"

fun fmt_f :: "nat \<Rightarrow> float64 \<Rightarrow> string" where
  "fmt_f p NaN = ''NaN''"
| "fmt_f p (Infinity s) = (if s then ''-Inf'' else ''+Inf'')"
| "fmt_f p (Finite s m) = fmt_digits s p (round_half_even (m * 10 ^ p))"

subsection \<open>The classifier\<close>

definition celsiusToFahrenheit :: "float64 \<Rightarrow> float64" where
  "celsiusToFahrenheit celsius =
     fadd (fdiv (fmul celsius (Finite False 9)) (Finite False 5)) (Finite False 32)"

definition getTemperature :: "float64 \<Rightarrow> string" where
  "getTemperature temp =
     (if fgt temp (Finite False 24) then
        ''Hot ('' @ fmt_f 0 (celsiusToFahrenheit temp) @ ''F / '' @ fmt_f 0 temp @ ''C)''
      else if flt temp (Finite False 10) then
        ''Cold ('' @ fmt_f 0 (celsiusToFahrenheit temp) @ ''F / '' @ fmt_f 0 temp @ ''C)''
      else
        ''Moderate ('' @ fmt_f 0 (celsiusToFahrenheit temp) @ ''F / '' @ fmt_f 0 temp @ ''C)'')"



subsection \<open>Strings and the environment\<close>

text \<open>
  \<^verbatim>\<open>strings.TrimSpace\<close> removes the leading and the trailing white space of a string, as
  Unicode defines it. On the bytes of the string these are the UTF-8 encodings of the
  white space code points: TAB, LF, VT, FF, CR, SPACE, U+0085, U+00A0, U+1680, U+2000 to
  U+200A, U+2028, U+2029, U+202F, U+205F and U+3000.
\<close>

definition space_runes :: "string list" where
  "space_runes =
     [[CHR 0x09], [CHR 0x0A], [CHR 0x0B], [CHR 0x0C], [CHR 0x0D], [CHR 0x20],
      [CHR 0xC2, CHR 0x85], [CHR 0xC2, CHR 0xA0], [CHR 0xE1, CHR 0x9A, CHR 0x80],
      [CHR 0xE2, CHR 0x80, CHR 0x80], [CHR 0xE2, CHR 0x80, CHR 0x81],
      [CHR 0xE2, CHR 0x80, CHR 0x82], [CHR 0xE2, CHR 0x80, CHR 0x83],
      [CHR 0xE2, CHR 0x80, CHR 0x84], [CHR 0xE2, CHR 0x80, CHR 0x85],
      [CHR 0xE2, CHR 0x80, CHR 0x86], [CHR 0xE2, CHR 0x80, CHR 0x87],
      [CHR 0xE2, CHR 0x80, CHR 0x88], [CHR 0xE2, CHR 0x80, CHR 0x89],
      [CHR 0xE2, CHR 0x80, CHR 0x8A], [CHR 0xE2, CHR 0x80, CHR 0xA8],
      [CHR 0xE2, CHR 0x80, CHR 0xA9], [CHR 0xE2, CHR 0x80, CHR 0xAF],
      [CHR 0xE2, CHR 0x81, CHR 0x9F], [CHR 0xE3, CHR 0x80, CHR 0x80]]"

definition leading :: "string list \<Rightarrow> string \<Rightarrow> nat" where
  "leading rs s = (case filter (\<lambda>r. prefix r s) rs of [] \<Rightarrow> 0 | r # _ \<Rightarrow> length r)"

function strip_left :: "string list \<Rightarrow> string \<Rightarrow> string" where
  "strip_left rs s =
     (if leading rs s = 0 then s else strip_left rs (drop (leading rs s) s))"
  by pat_completeness auto
termination
proof (relation "measure (\<lambda>(rs, s). length s)")
  show "wf (measure (\<lambda>(rs, s). length s))" by simp
next
  fix rs :: "string list" and s :: string
  assume a: "leading rs s \<noteq> 0"
  then obtain r qs where f: "filter (\<lambda>r. prefix r s) rs = r # qs" and "length r \<noteq> 0"
    by (auto simp: leading_def split: list.splits)
  then have "r \<in> set (filter (\<lambda>r. prefix r s) rs)" by simp
  then have "prefix r s" by simp
  with \<open>length r \<noteq> 0\<close> have "s \<noteq> []" by auto
  with a show "((rs, drop (leading rs s) s), (rs, s)) \<in> measure (\<lambda>(rs, s). length s)"
    by simp
qed

declare strip_left.simps [simp del]

definition TrimSpace :: "string \<Rightarrow> string" where
  "TrimSpace s = rev (strip_left (map rev space_runes) (rev (strip_left space_runes s)))"

text \<open>\<^verbatim>\<open>os.Getenv\<close>: the value of the variable, empty when the variable is not set.\<close>

definition Getenv :: "(string \<rightharpoonup> string) \<Rightarrow> string \<Rightarrow> string" where
  "Getenv env k = (case env k of None \<Rightarrow> [] | Some v \<Rightarrow> v)"

subsection \<open>Regular expressions and the API key\<close>

text \<open>
  The fragment of package regexp that \<^verbatim>\<open>^[a-f0-9]{32}$\<close> is written in: the two anchors
  (without the multi-line flag, the beginning and the end of the text), a character
  class of ranges, a counted repetition and concatenation. \<open>rmatch r s i\<close> lists the
  positions where a match of \<open>r\<close> that starts at position \<open>i\<close> of \<open>s\<close> can end, and
  \<^verbatim>\<open>MatchString\<close> looks for a match starting anywhere. All the characters of the class are
  ASCII, so matching bytes is matching code points.
\<close>

datatype regex = BeginText | EndText | CharClass "(char \<times> char) list" | Repeat regex nat
  | Seq regex regex

definition in_class :: "(char \<times> char) list \<Rightarrow> char \<Rightarrow> bool" where
  "in_class rs c =
     list_ex (\<lambda>(lo, hi). (of_char lo :: nat) \<le> of_char c \<and> (of_char c :: nat) \<le> of_char hi) rs"

fun rmatch :: "regex \<Rightarrow> string \<Rightarrow> nat \<Rightarrow> nat list" where
  "rmatch BeginText s i = (if i = 0 then [i] else [])"
| "rmatch EndText s i = (if i = length s then [i] else [])"
| "rmatch (CharClass rs) s i = (if i < length s \<and> in_class rs (s ! i) then [Suc i] else [])"
| "rmatch (Repeat r n) s i = ((\<lambda>ps. concat (map (rmatch r s) ps)) ^^ n) [i]"
| "rmatch (Seq a b) s i = concat (map (rmatch b s) (rmatch a s i))"

definition MatchString :: "regex \<Rightarrow> string \<Rightarrow> bool" where
  "MatchString re s = list_ex (\<lambda>i. rmatch re s i \<noteq> []) [0..<Suc (length s)]"

definition apiKeyRegex :: regex where
  "apiKeyRegex =
     Seq BeginText
       (Seq (Repeat (CharClass [(CHR ''a'', CHR ''f''), (CHR ''0'', CHR ''9'')]) 32) EndText)"

text \<open>
  \<^verbatim>\<open>getAPIKey\<close> returns the pair of Go: the trimmed key, and the error (\<open>None\<close> for
  \<^verbatim>\<open>nil\<close>). It returns the key also when it returns an error.
\<close>

definition getAPIKey :: "(string \<rightharpoonup> string) \<Rightarrow> string \<times> string option" where
  "getAPIKey env =
     (let apiKey = TrimSpace (Getenv env ''OPENWEATHER_API_KEY'')
      in if apiKey = [] then (apiKey, Some ''OPENWEATHER_API_KEY is not set'')
         else if \<not> MatchString apiKeyRegex apiKey
           then (apiKey, Some ''API key failed pattern check'')
         else (apiKey, None))"

text \<open>The key in the words of the specification: 32 characters, each a lowercase hex digit.\<close>

definition hex32 :: "string \<Rightarrow> bool" where
  "hex32 k = (length k = 32 \<and> list_all (\<lambda>c. c \<in> set ''0123456789abcdef'') k)"

subsection \<open>The listen address\<close>

definition is_digit :: "char \<Rightarrow> bool" where
  "is_digit c = (c \<in> set ''0123456789'')"

definition digit_val :: "char \<Rightarrow> int" where
  "digit_val c = int (of_char c) - 48"







subsection \<open>Parsing a float64\<close>

text \<open>
  \<^verbatim>\<open>strconv.ParseFloat(s, 64)\<close>. The special values are \<^verbatim>\<open>NaN\<close> and the infinities
  (\<^verbatim>\<open>inf\<close> or \<^verbatim>\<open>infinity\<close> with an optional sign), in any letter case. A number is an
  optional sign, decimal digits with at most one point and an optional decimal exponent,
  or \<^verbatim>\<open>0x\<close>, hexadecimal digits with at most one point and a binary exponent
  \<^verbatim>\<open>p\<close>; underscores may separate digits. \<open>readFloat\<close> follows the function of that name
  in the library: it scans the longest such prefix and returns the sign, the base, the
  digits as an integer, the exponent of the base and the text left over. The library
  keeps 19 digits and a flag for what it dropped; the embedding keeps all digits, which
  rounds the same. The value is rounded to the nearest float64, ties to even; a value
  that rounds beyond the largest float64 is a range error, and anything else that is not
  read to its end is a syntax error.
\<close>

datatype NumError = ErrSyntax | ErrRange

definition lower :: "char \<Rightarrow> char" where
  "lower c = (if (of_char c div 32) mod 2 = (0::nat) then char_of (of_char c + 32 :: nat) else c)"

definition ascii_lower :: "char \<Rightarrow> char" where
  "ascii_lower c =
     (if (65::nat) \<le> of_char c \<and> of_char c \<le> (90::nat) then char_of (of_char c + 32 :: nat) else c)"

definition commonPrefixLenIgnoreCase :: "string \<Rightarrow> string \<Rightarrow> nat" where
  "commonPrefixLenIgnoreCase s pre =
     length (takeWhile (\<lambda>(c, d). ascii_lower c = d) (zip s pre))"

definition special_inf :: "bool \<Rightarrow> nat \<Rightarrow> string \<Rightarrow> (float64 \<times> nat) option" where
  "special_inf neg nsign s =
     (let n = commonPrefixLenIgnoreCase s ''infinity'';
          n = (if 3 < n \<and> n < 8 then 3 else n)
      in if n = 3 \<or> n = 8 then Some (Infinity neg, nsign + n) else None)"

definition special :: "string \<Rightarrow> (float64 \<times> nat) option" where
  "special s =
     (if s = [] then None
      else if hd s = CHR ''+'' then special_inf False 1 (tl s)
      else if hd s = CHR ''-'' then special_inf True 1 (tl s)
      else if hd s = CHR ''i'' \<or> hd s = CHR ''I'' then special_inf False 0 s
      else if hd s = CHR ''n'' \<or> hd s = CHR ''N'' then
        (if commonPrefixLenIgnoreCase s ''nan'' = 3 then Some (NaN, 3) else None)
      else None)"

definition is_hex_letter :: "char \<Rightarrow> bool" where
  "is_hex_letter c = (lower c \<in> set ''abcdef'')"

definition hex_letter_val :: "char \<Rightarrow> int" where
  "hex_letter_val c = int (of_char (lower c)) - 87"

record fscan =
  sawdot :: bool
  sawdigits :: bool
  underscores :: bool
  nd :: int
  dp :: int
  mantissa :: int

fun read_digits :: "bool \<Rightarrow> fscan \<Rightarrow> string \<Rightarrow> fscan \<times> string" where
  "read_digits hex st [] = (st, [])"
| "read_digits hex st (c # cs) =
     (if c = CHR ''_'' then read_digits hex (st\<lparr>underscores := True\<rparr>) cs
      else if c = CHR ''.'' then
        (if sawdot st then (st, c # cs)
         else read_digits hex (st\<lparr>sawdot := True, dp := nd st\<rparr>) cs)
      else if is_digit c then
        (if c = CHR ''0'' \<and> nd st = 0 then
           read_digits hex (st\<lparr>sawdigits := True, dp := dp st - 1\<rparr>) cs
         else
           read_digits hex
             (st\<lparr>sawdigits := True, nd := nd st + 1,
                 mantissa := mantissa st * (if hex then 16 else 10) + digit_val c\<rparr>) cs)
      else if hex \<and> is_hex_letter c then
        read_digits hex
          (st\<lparr>sawdigits := True, nd := nd st + 1,
              mantissa := mantissa st * 16 + hex_letter_val c\<rparr>) cs
      else (st, c # cs))"

fun exp_digits :: "int \<Rightarrow> bool \<Rightarrow> string \<Rightarrow> int \<times> bool \<times> string" where
  "exp_digits e us [] = (e, us, [])"
| "exp_digits e us (c # cs) =
     (if c = CHR ''_'' then exp_digits e True cs
      else if is_digit c then exp_digits (if e < 10000 then e * 10 + digit_val c else e) us cs
      else (e, us, c # cs))"

text \<open>
  The exponent part: \<open>None\<close> when the text is malformed, otherwise the exponent (zero when
  there is none), whether it holds underscores, and the text left over.
\<close>

definition read_exp :: "bool \<Rightarrow> string \<Rightarrow> (int \<times> bool \<times> string) option" where
  "read_exp hex s =
     (if s \<noteq> [] \<and> lower (hd s) = (if hex then CHR ''p'' else CHR ''e'') then
        (let t = tl s;
             esign = (if t \<noteq> [] \<and> hd t = CHR ''-'' then - 1 else 1);
             u = (if t \<noteq> [] \<and> (hd t = CHR ''+'' \<or> hd t = CHR ''-'') then tl t else t)
         in if u = [] \<or> \<not> is_digit (hd u) then None
            else (case exp_digits 0 False u of (e, us, r) \<Rightarrow> Some (e * esign, us, r)))
      else if hex then None
      else Some (0, False, s))"

fun underscore_loop :: "bool \<Rightarrow> char \<Rightarrow> string \<Rightarrow> bool" where
  "underscore_loop hex saw [] = (saw \<noteq> CHR ''_'')"
| "underscore_loop hex saw (c # cs) =
     (if is_digit c \<or> (hex \<and> is_hex_letter c) then underscore_loop hex (CHR ''0'') cs
      else if c = CHR ''_'' then
        (if saw \<noteq> CHR ''0'' then False else underscore_loop hex (CHR ''_'') cs)
      else if saw = CHR ''_'' then False
      else underscore_loop hex (CHR ''!'') cs)"

definition underscoreOK :: "string \<Rightarrow> bool" where
  "underscoreOK s =
     (let t = (if s \<noteq> [] \<and> (hd s = CHR ''-'' \<or> hd s = CHR ''+'') then tl s else s)
      in if 2 \<le> length t \<and> hd t = CHR ''0'' \<and> lower (t ! 1) \<in> set ''box''
         then underscore_loop (lower (t ! 1) = CHR ''x'') (CHR ''0'') (drop 2 t)
         else underscore_loop False (CHR ''^'') t)"

text \<open>
  \<open>readFloat s\<close>: the sign, whether the number is hexadecimal, the digits, the exponent
  of 10 (of 2 for a hexadecimal number) and the text after the number; \<open>None\<close> when \<open>s\<close>
  does not start with a number.
\<close>

definition readFloat :: "string \<Rightarrow> (bool \<times> bool \<times> int \<times> int \<times> string) option" where
  "readFloat s =
     (if s = [] then None
      else
        (let neg = (hd s = CHR ''-'');
             t = (if hd s = CHR ''+'' \<or> hd s = CHR ''-'' then tl s else s);
             hex = (3 \<le> length t \<and> hd t = CHR ''0'' \<and> lower (t ! 1) = CHR ''x'');
             (st, r) = read_digits hex
               \<lparr>sawdot = False, sawdigits = False, underscores = False, nd = 0, dp = 0,
                mantissa = 0\<rparr>
               (if hex then drop 2 t else t)
         in if \<not> sawdigits st then None
            else (case read_exp hex r of
                    None \<Rightarrow> None
                  | Some (e, us, r') \<Rightarrow>
                      if (underscores st \<or> us)
                         \<and> \<not> underscoreOK (take (length s - length r') s) then None
                      else
                        Some (neg, hex, mantissa st,
                          (if hex then 4 else 1) * ((if sawdot st then dp st else nd st) - nd st)
                            + e, r'))))"

definition pow10 :: "int \<Rightarrow> rat" where
  "pow10 e = (if 0 \<le> e then 10 ^ nat e else 1 / 10 ^ nat (- e))"

definition float_of_scan :: "bool \<Rightarrow> bool \<Rightarrow> int \<Rightarrow> int \<Rightarrow> NumError + float64" where
  "float_of_scan neg hex m e =
     (case round64 (of_int m * (if hex then pow2 e else pow10 e)) of
        None \<Rightarrow> Inl ErrRange
      | Some r \<Rightarrow> Inr (Finite neg r))"

definition ParseFloat :: "string \<Rightarrow> NumError + float64" where
  "ParseFloat s =
     (case special s of
        Some (v, n) \<Rightarrow> if n = length s then Inr v else Inl ErrSyntax
      | None \<Rightarrow>
          (case readFloat s of
             None \<Rightarrow> Inl ErrSyntax
           | Some (neg, hex, m, e, r) \<Rightarrow>
               if r \<noteq> [] then Inl ErrSyntax else float_of_scan neg hex m e))"

subsection \<open>The validators\<close>

text \<open>
  Each validator returns the pair of Go: the value (zero with an error) and the error.
  The bounds \<^verbatim>\<open>-90\<close>, \<^verbatim>\<open>90\<close>, \<^verbatim>\<open>-180\<close> and \<^verbatim>\<open>180\<close> are exact float64 constants.
\<close>

definition validateLatitude :: "string \<Rightarrow> float64 \<times> string option" where
  "validateLatitude raw =
     (case ParseFloat raw of
        Inl err \<Rightarrow> (Finite False 0, Some (''invalid latitude format: '' @ raw))
      | Inr lat \<Rightarrow>
          if flt lat (Finite True 90) \<or> fgt lat (Finite False 90) then
            (Finite False 0,
             Some (''latitude out of range (-90 to 90 degrees): '' @ fmt_f 6 lat))
          else (lat, None))"

definition validateLongitude :: "string \<Rightarrow> float64 \<times> string option" where
  "validateLongitude raw =
     (case ParseFloat raw of
        Inl err \<Rightarrow> (Finite False 0, Some (''invalid longitude format: '' @ raw))
      | Inr lon \<Rightarrow>
          if flt lon (Finite True 180) \<or> fgt lon (Finite False 180) then
            (Finite False 0,
             Some (''longitude out of range (-180 to 180 degrees): '' @ fmt_f 6 lon))
          else (lon, None))"

subsection \<open>Printf without operands\<close>

text \<open>
  \<^verbatim>\<open>weatherHandler\<close> ends with \<^verbatim>\<open>fmt.Fprintf(w, httpResponse)\<close>: the text to send is the
  format, and there are no operands. \<open>Sprintf0\<close> is what package fmt prints then. Text
  without a percent sign is copied. After a percent sign come flags, an operand index in
  brackets, a width, a precision and the verb: \<^verbatim>\<open>%%\<close> prints a percent sign, any other verb
  prints \<^verbatim>\<open>%!verb(MISSING)\<close>, or \<^verbatim>\<open>%!verb(BADINDEX)\<close> after an operand index; a star for
  the width or the precision prints \<^verbatim>\<open>%!(BADWIDTH)\<close> or \<^verbatim>\<open>%!(BADPREC)\<close>; a format that
  ends before the verb prints \<^verbatim>\<open>%!(NOVERB)\<close>. The verb is one UTF-8 encoded code point;
  a byte that starts no valid encoding is printed as U+FFFD.
\<close>

definition is_flag :: "char \<Rightarrow> bool" where
  "is_flag c = (c \<in> set ''#0+- '')"

fun pnum :: "int \<Rightarrow> bool \<Rightarrow> string \<Rightarrow> bool \<times> string" where
  "pnum num isnum [] = (isnum, [])"
| "pnum num isnum (c # cs) =
     (if is_digit c then
        (if 1000000 < num then (False, []) else pnum (num * 10 + digit_val c) True cs)
      else (isnum, c # cs))"

definition parseArgNumber :: "string \<Rightarrow> nat \<times> bool" where
  "parseArgNumber f =
     (let k = length (takeWhile (\<lambda>c. c \<noteq> CHR '']'') (tl f))
      in if length f < 3 \<or> k = length (tl f) then (1, False)
         else (case pnum 0 False (take k (tl f)) of (isnum, r) \<Rightarrow> (k + 2, isnum \<and> r = [])))"

text \<open>
  \<open>argNumber s\<close>: the text after an operand index, whether a well-formed index was
  read, and whether the index is usable; without operands no index is.
\<close>

definition argNumber :: "string \<Rightarrow> string \<times> bool \<times> bool" where
  "argNumber s =
     (if s \<noteq> [] \<and> hd s = CHR ''['' then
        (case parseArgNumber s of (wid, ok) \<Rightarrow> (drop wid s, ok, False))
      else (s, False, True))"

definition byte_in :: "nat \<Rightarrow> nat \<Rightarrow> char \<Rightarrow> bool" where
  "byte_in lo hi c = (lo \<le> of_char c \<and> of_char c \<le> hi)"

definition rune_len :: "string \<Rightarrow> nat" where
  "rune_len s =
     (if s = [] then 0
      else if byte_in 0x00 0x7F (hd s) then 1
      else if byte_in 0xC2 0xDF (hd s) then
        (if 2 \<le> length s \<and> byte_in 0x80 0xBF (s ! 1) then 2 else 0)
      else if byte_in 0xE0 0xEF (hd s) then
        (if 3 \<le> length s
            \<and> byte_in (if hd s = CHR 0xE0 then 0xA0 else 0x80)
                 (if hd s = CHR 0xED then 0x9F else 0xBF) (s ! 1)
            \<and> byte_in 0x80 0xBF (s ! 2) then 3 else 0)
      else if byte_in 0xF0 0xF4 (hd s) then
        (if 4 \<le> length s
            \<and> byte_in (if hd s = CHR 0xF0 then 0x90 else 0x80)
                 (if hd s = CHR 0xF4 then 0x8F else 0xBF) (s ! 1)
            \<and> byte_in 0x80 0xBF (s ! 2) \<and> byte_in 0x80 0xBF (s ! 3) then 4 else 0)
      else 0)"

definition decode_rune :: "string \<Rightarrow> string \<times> string" where
  "decode_rune s =
     (if rune_len s = 0 then ([CHR 0xEF, CHR 0xBF, CHR 0xBD], tl s)
      else (take (rune_len s) s, drop (rune_len s) s))"

text \<open>
  \<open>verb0 s\<close>: what is printed for the directive whose text after the percent sign
  starts \<open>s\<close>, and how many bytes of \<open>s\<close> the directive takes.
\<close>

definition verb0 :: "string \<Rightarrow> string \<times> nat" where
  "verb0 s0 =
     (let s1 = dropWhile is_flag s0;
          (s2, after2, good2) = argNumber s1;
          star3 = (s2 \<noteq> [] \<and> hd s2 = CHR ''*'');
          (wid3, s3) = (if star3 then (False, tl s2) else pnum 0 False s2);
          out3 = (if star3 then ''%!(BADWIDTH)'' else []);
          after3 = (\<not> star3 \<and> after2);
          good3 = (good2 \<and> \<not> (after3 \<and> wid3));
          dot = (s3 \<noteq> [] \<and> hd s3 = CHR ''.'');
          (s4a, after4a, good4a) = (if dot then argNumber (tl s3) else (s3, after3, True));
          good4 = (good3 \<and> \<not> (dot \<and> after3) \<and> good4a);
          star4 = (dot \<and> s4a \<noteq> [] \<and> hd s4a = CHR ''*'');
          s4 = (if \<not> dot then s3 else if star4 then tl s4a else snd (pnum 0 False s4a));
          out4 = (if star4 then ''%!(BADPREC)'' else []);
          after4 = (if dot then \<not> star4 \<and> after4a else after3);
          (s5, after5, good5a) = (if after4 then (s4, True, True) else argNumber s4);
          good5 = (good4 \<and> good5a)
      in if s5 = [] then (out3 @ out4 @ ''%!(NOVERB)'', length s0)
         else (case decode_rune s5 of (verb, s6) \<Rightarrow>
                 (out3 @ out4 @
                    (if verb = ''%'' then ''%''
                     else if \<not> good5 then ''%!'' @ verb @ ''(BADINDEX)''
                     else ''%!'' @ verb @ ''(MISSING)''),
                  length s0 - length s6)))"

function Sprintf0 :: "string \<Rightarrow> string" where
  "Sprintf0 [] = []"
| "Sprintf0 (c # cs) =
     (if c \<noteq> CHR ''%'' then c # Sprintf0 cs
      else (case verb0 cs of (out, n) \<Rightarrow> out @ Sprintf0 (drop n cs)))"
  by pat_completeness auto
termination
  by (relation "measure length") auto

subsection \<open>The handler\<close>

text \<open>
  The decoded answer of the upstream API, as the struct \<^verbatim>\<open>WeatherData\<close> declares it.
\<close>

record weather_entry =
  Description :: string

record main_block =
  Temperature :: float64

record WeatherData =
  Weather :: "weather_entry list"
  Main :: main_block

text \<open>
  What the handler reads from outside the program: the environment; \<^verbatim>\<open>http.Get\<close>, which
  gives an error (its message) or the body of the response, whatever its status code;
  and the JSON decoder, which gives an error or a \<^verbatim>\<open>WeatherData\<close>. A request is the map of
  its query parameters; \<^verbatim>\<open>Query().Get\<close> gives the empty string for an absent one.
\<close>

record world =
  environ :: "string \<rightharpoonup> string"
  http_Get :: "string \<Rightarrow> string + string"
  json_Decode :: "string \<Rightarrow> string + WeatherData"

definition query_Get :: "(string \<rightharpoonup> string) \<Rightarrow> string \<Rightarrow> string" where
  "query_Get q k = (case q k of None \<Rightarrow> [] | Some v \<Rightarrow> v)"

text \<open>
  A run of the handler ends with a response or with a panic, which package net/http
  recovers by closing the connection. \<^verbatim>\<open>http.Error\<close> sends its message and a newline as
  plain text. The second component of the result is what the handler logs.
\<close>

record response =
  status :: nat
  content_type :: string
  body :: string

datatype outcome = Response response | Panic string

definition http_Error :: "string \<Rightarrow> nat \<Rightarrow> response" where
  "http_Error msg code =
     \<lparr>status = code, content_type = ''text/plain; charset=utf-8'', body = msg @ ''\<newline>''\<rparr>"

definition request_url :: "float64 \<Rightarrow> float64 \<Rightarrow> string \<Rightarrow> string" where
  "request_url latitude longitude apiKey =
     ''https://api.openweathermap.org/data/2.5/weather?lat='' @ fmt_f 6 latitude @
     ''&lon='' @ fmt_f 6 longitude @ ''&units=metric&appid='' @ apiKey"

definition weather_reply :: "WeatherData \<Rightarrow> outcome" where
  "weather_reply weatherData =
     (case Weather weatherData of
        [] \<Rightarrow> Panic ''runtime error: index out of range [0] with length 0''
      | first # others \<Rightarrow>
          Response
            \<lparr>status = 200, content_type = ''text/plain'',
             body = Sprintf0
               (''Current Temperature:\<newline>  Weather     : '' @ Description first @
                ''\<newline>  Temperature : '' @ getTemperature (Temperature (Main weatherData)))\<rparr>)"

definition weatherHandler :: "world \<Rightarrow> (string \<rightharpoonup> string) \<Rightarrow> outcome \<times> string list" where
  "weatherHandler w q =
     (case getAPIKey (environ w) of (apiKey, err) \<Rightarrow>
        if apiKey = [] then (Response (http_Error ''invalid API key'' 500), [])
        else
          (case validateLatitude (query_Get q ''lat'') of
             (latitude, Some err) \<Rightarrow>
               (Response (http_Error ''Invalid latitude'' 400), [''input error: '' @ err])
           | (latitude, None) \<Rightarrow>
               (case validateLongitude (query_Get q ''lon'') of
                  (longitude, Some err) \<Rightarrow>
                    (Response (http_Error ''Invalid longitude'' 400), [''input error: '' @ err])
                | (longitude, None) \<Rightarrow>
                    (case http_Get w (request_url latitude longitude apiKey) of
                       Inl err \<Rightarrow> (Response (http_Error err 500), [])
                     | Inr resp_body \<Rightarrow>
                         (case json_Decode w resp_body of
                            Inl err \<Rightarrow> (Response (http_Error err 500), [])
                          | Inr weatherData \<Rightarrow> (weather_reply weatherData, []))))))"

declare Sprintf0.simps [simp del]

subsection \<open>Concrete inputs\<close>

text \<open>
  Inputs for concrete runs of the handler: a well-formed key and a malformed one, a
  request for San Francisco, a decoded answer, a world whose upstream answers with that
  decoded answer, and a world whose upstream cannot be reached, with the error message
  that \<^verbatim>\<open>http.Get\<close> gives then (the request URL in double quotes, then the cause).
\<close>

definition test_key :: string where
  "test_key = ''abcdef0123456789abcdef0123456789''"

definition bad_key :: string where
  "bad_key = ''def0123456789abcdef0123456789xyz''"

definition san_francisco :: "string \<rightharpoonup> string" where
  "san_francisco = [''lat'' \<mapsto> ''37.7749'', ''lon'' \<mapsto> ''-122.4194'']"

definition clear_sky :: WeatherData where
  "clear_sky =
     \<lparr>Weather = [\<lparr>Description = ''clear sky''\<rparr>], Main = \<lparr>Temperature = Finite False 20\<rparr>\<rparr>"

definition answering :: "string \<Rightarrow> WeatherData \<Rightarrow> world" where
  "answering key wd =
     \<lparr>environ = [''OPENWEATHER_API_KEY'' \<mapsto> key], http_Get = (\<lambda>url. Inr ''{}''),
      json_Decode = (\<lambda>b. Inr wd)\<rparr>"

definition unreachable :: "string \<Rightarrow> world" where
  "unreachable key =
     \<lparr>environ = [''OPENWEATHER_API_KEY'' \<mapsto> key],
      http_Get = (\<lambda>url. Inl (''Get '' @ [CHR 0x22] @ url @ [CHR 0x22] @
        '': dial tcp: lookup api.openweathermap.org: no such host'')),
      json_Decode = (\<lambda>b. Inl ''EOF'')\<rparr>"

section \<open>Evaluation\<close>

lemma floor_rat_numeral:
  "\<lfloor>numeral a / numeral b :: rat\<rfloor> = numeral a div numeral b"
  using floor_divide_of_int_eq[of "numeral a" "numeral b", where ?'a = rat] by simp

lemma ceiling_rat_numeral:
  "\<lceil>numeral a / numeral b :: rat\<rceil> = - (- numeral a div numeral b)"
  using ceiling_divide_eq_div[of "numeral a" "numeral b", where ?'a = rat] by simp

lemmas float_eval =
  floor_rat_numeral ceiling_rat_numeral bit_length.simps ilog2_def pow2_def
  round_half_even_def round64_def mk_float_def Let_def

lemmas fmt_eval = dec.simps frac_digits.simps digit_def fmt_digits_def

section \<open>Properties of the formatting functions\<close>

lemma round_half_even_nearest: "\<bar>q - of_int (round_half_even q)\<bar> \<le> 1 / 2"
proof -
  have "of_int \<lfloor>q\<rfloor> \<le> q" "q < of_int \<lfloor>q\<rfloor> + 1" by linarith+
  then show ?thesis
    by (auto simp: round_half_even_def Let_def abs_le_iff)
qed








lemmas classifier_eval = getTemperature_def celsiusToFahrenheit_def fgt_def float_eval fmt_eval






section \<open>Rounding to float64\<close>

lemma pow2_powi: "pow2 e = 2 powi e"
  by (simp add: pow2_def power_int_def inverse_eq_divide power_one_over)

lemma pow2_pos: "0 < pow2 e"
  by (simp add: pow2_def)

lemma pow2_add: "pow2 (a + b) = pow2 a * pow2 b"
  unfolding pow2_powi by (rule power_int_add) simp

lemma pow2_mono: "a \<le> b \<Longrightarrow> pow2 a \<le> pow2 b"
  unfolding pow2_powi by (rule power_int_increasing) simp_all

lemma pow2_one: "pow2 1 = 2"
  by (simp add: pow2_def)

lemma pow2_Suc: "pow2 (e + 1) = 2 * pow2 e"
  unfolding pow2_add[of e 1] pow2_one by (rule mult.commute)

lemma pow2_nat: "0 \<le> e \<Longrightarrow> pow2 e = of_int (2 ^ nat e)"
  by (simp add: pow2_def)

lemma bit_length_bounds:
  "0 < n \<Longrightarrow> 1 \<le> bit_length n \<and> 2 ^ nat (bit_length n - 1) \<le> n \<and> n < 2 ^ nat (bit_length n)"
proof (induction n rule: bit_length.induct)
  case (1 n)
  from \<open>0 < n\<close> have bl: "bit_length n = 1 + bit_length (n div 2)"
    by (subst bit_length.simps) simp
  show ?case
  proof (cases "n div 2 = 0")
    case True
    with \<open>0 < n\<close> have "n = 1" by presburger
    moreover have "bit_length (1 div 2) = 0" by (subst bit_length.simps) simp
    ultimately show ?thesis using bl by simp
  next
    case False
    with \<open>0 < n\<close> have pos: "0 < n div 2" by presburger
    with 1 \<open>0 < n\<close> have ih: "1 \<le> bit_length (n div 2)"
        "2 ^ nat (bit_length (n div 2) - 1) \<le> n div 2"
        "n div 2 < 2 ^ nat (bit_length (n div 2))"
      by simp_all
    let ?k = "bit_length (n div 2)"
    have e1: "nat (1 + ?k - 1) = Suc (nat (?k - 1))" using ih(1) by simp
    have e2: "nat (1 + ?k) = Suc (nat ?k)" using ih(1) by simp
    have "2 * (n div 2) \<le> n" "n \<le> 2 * (n div 2) + 1" by presburger+
    with ih show ?thesis unfolding bl e1 e2 by simp
  qed
qed

lemma ilog2_bounds:
  assumes "0 < q"
  shows "pow2 (ilog2 q) \<le> q \<and> q < pow2 (ilog2 q + 1)"
proof (cases "1 \<le> q")
  case True
  then have fpos: "0 < \<lfloor>q\<rfloor>" by linarith
  let ?k = "bit_length \<lfloor>q\<rfloor>"
  from bit_length_bounds[OF fpos] have k: "1 \<le> ?k" "2 ^ nat (?k - 1) \<le> \<lfloor>q\<rfloor>" "\<lfloor>q\<rfloor> < 2 ^ nat ?k"
    by simp_all
  have il: "ilog2 q = ?k - 1" using True by (simp add: ilog2_def)
  have "pow2 (?k - 1) = of_int (2 ^ nat (?k - 1))" using k(1) by (simp add: pow2_nat)
  also have "\<dots> \<le> of_int \<lfloor>q\<rfloor>" using k(2) by (simp only: of_int_le_iff)
  also have "\<dots> \<le> q" by simp
  finally have lo: "pow2 (?k - 1) \<le> q" .
  have "\<lfloor>q\<rfloor> + 1 \<le> 2 ^ nat ?k" using k(3) by simp
  then have "of_int (\<lfloor>q\<rfloor> + 1) \<le> (of_int (2 ^ nat ?k) :: rat)" by (simp only: of_int_le_iff)
  moreover have "q < of_int (\<lfloor>q\<rfloor> + 1)" by linarith
  moreover have "pow2 ?k = of_int (2 ^ nat ?k)" using k(1) by (simp add: pow2_nat)
  ultimately have hi: "q < pow2 ?k" by simp
  from lo hi show ?thesis unfolding il by simp
next
  case False
  with assms have q1: "q < 1" by simp
  let ?N = "\<lceil>1 / q\<rceil>"
  have inv: "1 < 1 / q" using assms q1 by simp
  then have N2: "2 \<le> ?N" by linarith
  then have Npos: "0 < ?N - 1" by simp
  let ?k = "bit_length (?N - 1)"
  from bit_length_bounds[OF Npos] have k: "1 \<le> ?k" "2 ^ nat (?k - 1) \<le> ?N - 1" "?N - 1 < 2 ^ nat ?k"
    by simp_all
  have il: "ilog2 q = - ?k" using False by (simp add: ilog2_def)
  have kk: "pow2 ?k = of_int (2 ^ nat ?k)" using k(1) by (simp add: pow2_nat)
  have kk1: "pow2 (?k - 1) = of_int (2 ^ nat (?k - 1))" using k(1) by (simp add: pow2_nat)
  have N: "?N \<le> 2 ^ nat ?k" using k(3) by simp
  have "1 / q \<le> of_int ?N" by linarith
  also have "\<dots> \<le> of_int (2 ^ nat ?k)" using N by (simp only: of_int_le_iff)
  also have "\<dots> = pow2 ?k" by (simp only: kk)
  finally have a: "1 / q \<le> pow2 ?k" .
  have "pow2 (?k - 1) = of_int (2 ^ nat (?k - 1))" by (rule kk1)
  also have "\<dots> \<le> of_int (?N - 1)" using k(2) by (simp only: of_int_le_iff)
  also have "\<dots> < 1 / q" by linarith
  finally have b: "pow2 (?k - 1) < 1 / q" .
  have m: "pow2 (- ?k) * pow2 ?k = 1" using pow2_add[of "- ?k" ?k] by (simp add: pow2_def)
  have m1: "pow2 (- ?k + 1) * pow2 (?k - 1) = 1"
    using pow2_add[of "- ?k + 1" "?k - 1"] by (simp add: pow2_def)
  have lo: "pow2 (- ?k) \<le> q"
  proof -
    from a assms have "1 \<le> pow2 ?k * q" by (simp add: divide_le_eq)
    then have "pow2 (- ?k) * 1 \<le> pow2 (- ?k) * (pow2 ?k * q)"
      using pow2_pos[of "- ?k"] by (intro mult_left_mono) simp_all
    then show ?thesis using m by (simp add: mult.assoc[symmetric])
  qed
  have hi: "q < pow2 (- ?k + 1)"
  proof -
    from b assms have "pow2 (?k - 1) * q < 1" by (simp add: less_divide_eq)
    then have "pow2 (- ?k + 1) * (pow2 (?k - 1) * q) < pow2 (- ?k + 1) * 1"
      using pow2_pos[of "- ?k + 1"] by (intro mult_strict_left_mono) simp_all
    then show ?thesis using m1 by (simp add: mult.assoc[symmetric])
  qed
  from lo hi show ?thesis unfolding il by simp
qed

lemma round_half_even_nonneg: "0 \<le> x \<Longrightarrow> 0 \<le> round_half_even x"
proof -
  assume "0 \<le> x"
  then have "0 \<le> \<lfloor>x\<rfloor>" by simp
  then show ?thesis by (auto simp: round_half_even_def Let_def)
qed

lemma round64_cases:
  assumes "0 < q"
  shows "round64 q = None \<or>
    (\<exists>r. round64 q = Some r \<and> 0 \<le> r \<and> r < pow2 1024 \<and> \<bar>r - q\<bar> \<le> q / 2 ^ 53 + pow2 (- 1075))"
    and "q < pow2 1023 \<Longrightarrow> round64 q \<noteq> None"
proof -
  define e where "e = max (ilog2 q) (- 1022)"
  define u where "u = pow2 (e - 52)"
  define n where "n = round_half_even (q / u)"
  define r where "r = of_int n * u"
  have upos: "0 < u" unfolding u_def by (rule pow2_pos)
  have r64: "round64 q = (if pow2 1024 \<le> r then None else Some r)"
    using assms(1) by (simp add: round64_def Let_def e_def u_def n_def r_def)
  have il: "pow2 (ilog2 q) \<le> q" "q < pow2 (ilog2 q + 1)"
    using ilog2_bounds[OF assms(1)] by simp_all
  have half: "u / 2 = pow2 (e - 53)"
    using pow2_Suc[of "e - 53"] by (simp add: u_def)
  have near: "\<bar>q / u - of_int n\<bar> \<le> 1 / 2"
    unfolding n_def by (rule round_half_even_nearest)
  have "r - q = (of_int n - q / u) * u" using upos by (simp add: r_def field_simps)
  then have "\<bar>r - q\<bar> = \<bar>of_int n - q / u\<bar> * u" using upos by (simp add: abs_mult)
  also have "\<dots> \<le> (1 / 2) * u"
    using near upos by (intro mult_right_mono) (simp_all add: abs_minus_commute)
  finally have err: "\<bar>r - q\<bar> \<le> u / 2" by simp
  have rnonneg: "0 \<le> r"
  proof -
    have "0 \<le> q / u" using assms(1) upos by simp
    then have "0 \<le> n" unfolding n_def by (rule round_half_even_nonneg)
    then show ?thesis using upos by (simp add: r_def)
  qed
  have bound: "u / 2 \<le> q / 2 ^ 53 + pow2 (- 1075)"
  proof (cases "- 1022 \<le> ilog2 q")
    case True
    then have "e = ilog2 q" by (simp add: e_def)
    then have "u / 2 = pow2 (ilog2 q) * pow2 (- 53)"
      using half pow2_add[of "ilog2 q" "- 53"] by simp
    also have "\<dots> \<le> q * pow2 (- 53)"
      using il(1) pow2_pos[of "- 53"] by (intro mult_right_mono) simp_all
    also have "\<dots> = q / 2 ^ 53" by (simp add: pow2_def)
    finally show ?thesis using pow2_pos[of "- 1075"] by simp
  next
    case False
    then have "e = - 1022" by (simp add: e_def)
    then have "u / 2 = pow2 (- 1075)" using half by simp
    then show ?thesis using assms(1) by simp
  qed
  have rq: "\<bar>r - q\<bar> \<le> q / 2 ^ 53 + pow2 (- 1075)" using err bound by simp
  show "round64 q = None \<or>
    (\<exists>r. round64 q = Some r \<and> 0 \<le> r \<and> r < pow2 1024 \<and> \<bar>r - q\<bar> \<le> q / 2 ^ 53 + pow2 (- 1075))"
  proof (cases "pow2 1024 \<le> r")
    case True
    then show ?thesis using r64 by simp
  next
    case False
    then have "round64 q = Some r" "r < pow2 1024" using r64 by simp_all
    with rnonneg rq show ?thesis by blast
  qed
  show "round64 q \<noteq> None" if range: "q < pow2 1023"
  proof -
    have e_le: "ilog2 q \<le> 1022"
    proof (rule ccontr)
      assume "\<not> ilog2 q \<le> 1022"
      then have "pow2 1023 \<le> pow2 (ilog2 q)" by (intro pow2_mono) simp
      with il(1) range show False by simp
    qed
    have small: "u / 2 \<le> pow2 1023"
    proof -
      have "e \<le> 1022" using e_le by (simp add: e_def)
      then have "pow2 (e - 53) \<le> pow2 1023" by (intro pow2_mono) simp
      then show ?thesis using half by simp
    qed
    have "r \<le> q + u / 2" using err by linarith
    also have "\<dots> < pow2 1023 + pow2 1023" using range small by simp
    also have "\<dots> = pow2 1024" using pow2_Suc[of 1023] by simp
    finally have "\<not> pow2 1024 \<le> r" by simp
    then show ?thesis using r64 by simp
  qed
qed

lemma mk_float_cases:
  assumes "0 \<le> q"
  shows "mk_float s q = Infinity s \<or>
    (\<exists>r. mk_float s q = Finite s r \<and> 0 \<le> r \<and> r < pow2 1024 \<and> \<bar>r - q\<bar> \<le> q / 2 ^ 53 + pow2 (- 1075))"
    and "q < pow2 1023 \<Longrightarrow> mk_float s q \<noteq> Infinity s"
proof -
  show "mk_float s q = Infinity s \<or>
    (\<exists>r. mk_float s q = Finite s r \<and> 0 \<le> r \<and> r < pow2 1024 \<and> \<bar>r - q\<bar> \<le> q / 2 ^ 53 + pow2 (- 1075))"
  proof (cases "q = 0")
    case True
    then have "mk_float s q = Finite s 0" by (simp add: mk_float_def round64_def)
    then show ?thesis using True pow2_pos[of "- 1075"] pow2_pos[of 1024] by simp
  next
    case False
    with assms have "0 < q" by simp
    from round64_cases(1)[OF this] show ?thesis
      by (auto simp: mk_float_def)
  qed
  show "mk_float s q \<noteq> Infinity s" if "q < pow2 1023"
  proof (cases "q = 0")
    case True
    then show ?thesis by (simp add: mk_float_def round64_def)
  next
    case False
    with assms have "0 < q" by simp
    from round64_cases(2)[OF this that] show ?thesis
      by (auto simp: mk_float_def)
  qed
qed

lemma pow2_small: "0 < pow2 (- 1075)" "pow2 (- 1075) \<le> 1" "1024 \<le> pow2 1023"
  "pow2 1024 = 2 * pow2 1023"
proof -
  show "0 < pow2 (- 1075)" by (rule pow2_pos)
  have "pow2 (- 1075) \<le> pow2 0" by (rule pow2_mono) simp
  then show "pow2 (- 1075) \<le> 1" by (simp add: pow2_def)
  have "pow2 10 \<le> pow2 1023" by (rule pow2_mono) simp
  then show "1024 \<le> pow2 1023" by (simp add: pow2_def)
  show "pow2 1024 = 2 * pow2 1023" using pow2_Suc[of 1023] by simp
qed

lemma quotient_in_range:
  fixes p B :: rat
  assumes "p < 2 * B" "0 \<le> p"
  shows "p / 5 < B"
  using assms by linarith

lemma sum_in_range:
  fixes d p h B :: rat
  assumes d: "\<bar>d - p / 5\<bar> \<le> p / 5 / 2 ^ 53 + h"
    and pos: "0 \<le> p" "0 < h" "h \<le> 1" and B: "1024 \<le> B" "p < 2 * B"
  shows "d + 32 < B"
  using assms by (simp; linarith)

lemma three_roundings:
  fixes a d p m h v w :: rat
  assumes a: "\<bar>a - v\<bar> \<le> \<bar>v\<bar> / 2 ^ 53 + h"
    and d: "\<bar>d - p / 5\<bar> \<le> p / 5 / 2 ^ 53 + h"
    and p: "\<bar>p - m * 9\<bar> \<le> m * 9 / 2 ^ 53 + h"
    and pos: "0 \<le> d" "0 \<le> p" "0 \<le> m" "0 < h"
    and v: "\<bar>v\<bar> \<le> d + 32" "\<bar>v - w\<bar> = \<bar>d - m * 9 / 5\<bar>"
  shows "\<bar>a - w\<bar> \<le> (9 * m / 5 + 32) / 2 ^ 51 + 8 * h"
proof -
  have p1: "p / 5 \<le> m * 9 / 5 + m * 9 / 5 / 2 ^ 53 + h / 5"
    using p by (simp; linarith)
  have dm: "\<bar>d - m * 9 / 5\<bar> \<le> p / 5 / 2 ^ 53 + h + m * 9 / 5 / 2 ^ 53 + h / 5"
    using d p by (simp; linarith)
  have dm2: "\<bar>d - m * 9 / 5\<bar> \<le> 5 * (m * 9 / 5) / 2 ^ 54 + 2 * h"
    using dm p1 pos by (simp; linarith)
  have d1: "d \<le> m * 9 / 5 + 5 * (m * 9 / 5) / 2 ^ 54 + 2 * h"
    using dm2 by (simp; linarith)
  have "\<bar>v\<bar> / 2 ^ 53 \<le> (d + 32) / 2 ^ 53" using v(1) by (simp add: divide_right_mono)
  then have "\<bar>v\<bar> / 2 ^ 53 \<le> d / 2 ^ 53 + 32 / 2 ^ 53" by (simp add: add_divide_distrib)
  with a have a1: "\<bar>a - v\<bar> \<le> d / 2 ^ 53 + 32 / 2 ^ 53 + h" by linarith
  have "\<bar>a - w\<bar> \<le> \<bar>a - v\<bar> + \<bar>v - w\<bar>" by linarith
  with a1 v(2) dm2 have "\<bar>a - w\<bar> \<le> d / 2 ^ 53 + 32 / 2 ^ 53 + h + (5 * (m * 9 / 5) / 2 ^ 54 + 2 * h)"
    by linarith
  with d1 pos have "\<bar>a - w\<bar> \<le> 9 * m / 5 / 2 ^ 51 + 32 / 2 ^ 51 + 8 * h" by (simp; linarith)
  then show ?thesis by (simp add: add_divide_distrib)
qed

lemma celsiusToFahrenheit_overflow:
  assumes "mk_float s (m * 9) = Infinity s"
  shows "celsiusToFahrenheit (Finite s m) = Infinity s"
proof -
  have mul: "fmul (Finite s m) (Finite False 9) = mk_float s (m * 9)" by simp
  show ?thesis by (simp only: celsiusToFahrenheit_def mul assms fdiv.simps fadd.simps) simp
qed

lemma celsiusToFahrenheit_rounded:
  assumes m: "0 \<le> m" and fin: "mk_float s (m * 9) \<noteq> Infinity s"
  shows "\<exists>t f. celsiusToFahrenheit (Finite s m) = Finite t f \<and> 0 \<le> f \<and>
      \<bar>fval (Finite t f) - (fval (Finite s m) * 9 / 5 + 32)\<bar>
        \<le> (9 * m / 5 + 32) / 2 ^ 51 + 8 * pow2 (- 1075)"
proof -
  define h where "h = pow2 (- 1075)"
  define B where "B = pow2 1023"
  have h: "0 < h" "h \<le> 1" and B: "1024 \<le> B" and B2: "pow2 1024 = 2 * B"
    using pow2_small by (simp_all add: h_def B_def)
  have mul: "fmul (Finite s m) (Finite False 9) = mk_float s (m * 9)" by simp
  have m9: "0 \<le> m * 9" using m by simp
  from fin mk_float_cases(1)[OF m9, of s] obtain p where
    p: "mk_float s (m * 9) = Finite s p" "0 \<le> p" "p < 2 * B"
      "\<bar>p - m * 9\<bar> \<le> m * 9 / 2 ^ 53 + h"
    unfolding h_def B2[symmetric] by blast
  have "p / 5 < B" using p(3,2) by (rule quotient_in_range)
  then have p5: "0 \<le> p / 5" "p / 5 < pow2 1023" using p(2) by (simp_all add: B_def)
  from mk_float_cases[OF p5(1), of s] p5(2) obtain d where
    d: "mk_float s (p / 5) = Finite s d" "0 \<le> d" "\<bar>d - p / 5\<bar> \<le> p / 5 / 2 ^ 53 + h"
    unfolding h_def by blast
  have div: "fdiv (Finite s p) (Finite False 5) = Finite s d" using d(1) by simp
  define v where "v = fval (Finite s d) + 32"
  have vd: "\<bar>v\<bar> \<le> d + 32" using d(2) by (cases s) (auto simp: v_def)
  have dB: "d + 32 < B" using d(3) p(2) h B p(3) by (rule sum_in_range)
  have "\<exists>t f. fadd (Finite s d) (Finite False 32) = Finite t f \<and> 0 \<le> f
      \<and> \<bar>fval (Finite t f) - v\<bar> \<le> \<bar>v\<bar> / 2 ^ 53 + h"
  proof (cases "v = 0")
    case True
    then have e: "fadd (Finite s d) (Finite False 32) = Finite False 0"
      by (simp add: v_def Let_def)
    show ?thesis unfolding e using True h by auto
  next
    case False
    then have v0: "0 \<le> \<bar>v\<bar>" "\<bar>v\<bar> < pow2 1023" using vd dB by (simp_all add: B_def)
    from mk_float_cases[OF v0(1), of "v < 0"] v0(2) obtain a where
      a: "mk_float (v < 0) \<bar>v\<bar> = Finite (v < 0) a" "0 \<le> a" "\<bar>a - \<bar>v\<bar>\<bar> \<le> \<bar>v\<bar> / 2 ^ 53 + h"
      unfolding h_def by blast
    have e: "fadd (Finite s d) (Finite False 32) = Finite (v < 0) a"
      using False a(1) by (simp add: v_def Let_def)
    have "\<bar>fval (Finite (v < 0) a) - v\<bar> = \<bar>a - \<bar>v\<bar>\<bar>" by (simp add: abs_if)
    with a(3) have "\<bar>fval (Finite (v < 0) a) - v\<bar> \<le> \<bar>v\<bar> / 2 ^ 53 + h" by simp
    with e a(2) show ?thesis by blast
  qed
  then obtain t f where
    add: "fadd (Finite s d) (Finite False 32) = Finite t f" and f: "0 \<le> f"
    and ferr: "\<bar>fval (Finite t f) - v\<bar> \<le> \<bar>v\<bar> / 2 ^ 53 + h" by blast
  have c2f: "celsiusToFahrenheit (Finite s m) = Finite t f"
    by (simp only: celsiusToFahrenheit_def mul p(1) div add)
  have vw: "\<bar>v - (fval (Finite s m) * 9 / 5 + 32)\<bar> = \<bar>d - m * 9 / 5\<bar>"
    by (cases s) (simp_all add: v_def abs_minus_commute)
  have "\<bar>fval (Finite t f) - (fval (Finite s m) * 9 / 5 + 32)\<bar>
      \<le> (9 * m / 5 + 32) / 2 ^ 51 + 8 * h"
    using ferr d(3) p(4) d(2) p(2) m h(1) vd vw by (rule three_roundings)
  with c2f f show ?thesis unfolding h_def by blast
qed

lemma celsiusToFahrenheit_in_range:
  assumes m: "0 \<le> m" and range: "9 * m < pow2 1023"
  shows "\<exists>t f. celsiusToFahrenheit (Finite s m) = Finite t f \<and> 0 \<le> f \<and>
      \<bar>fval (Finite t f) - (fval (Finite s m) * 9 / 5 + 32)\<bar>
        \<le> (9 * m / 5 + 32) / 2 ^ 51 + 8 * pow2 (- 1075)"
proof -
  have "0 \<le> m * 9" "m * 9 < pow2 1023" using m range by (simp_all add: mult.commute)
  from mk_float_cases(2)[OF this, of s] have "mk_float s (m * 9) \<noteq> Infinity s" .
  with m show ?thesis by (rule celsiusToFahrenheit_rounded)
qed

lemma celsiusToFahrenheit_overflow_range:
  assumes m: "0 \<le> m" and inf: "celsiusToFahrenheit (Finite s m) = Infinity s'"
  shows "s' = s \<and> pow2 1023 \<le> 9 * m"
proof -
  have "mk_float s (m * 9) = Infinity s"
  proof (rule ccontr)
    assume "mk_float s (m * 9) \<noteq> Infinity s"
    with m obtain t f where "celsiusToFahrenheit (Finite s m) = Finite t f"
      using celsiusToFahrenheit_rounded by blast
    with inf show False by simp
  qed
  then have "celsiusToFahrenheit (Finite s m) = Infinity s" by (rule celsiusToFahrenheit_overflow)
  with inf have "s' = s" by simp
  moreover have "pow2 1023 \<le> 9 * m"
  proof (rule ccontr)
    assume "\<not> pow2 1023 \<le> 9 * m"
    then have "9 * m < pow2 1023" by simp
    from celsiusToFahrenheit_in_range[OF m this, of s] inf show False by auto
  qed
  ultimately show ?thesis by simp
qed

lemma celsiusToFahrenheit_not_NaN: "0 \<le> m \<Longrightarrow> celsiusToFahrenheit (Finite s m) \<noteq> NaN"
proof (cases "mk_float s (m * 9) = Infinity s")
  case True
  then show ?thesis using celsiusToFahrenheit_overflow by simp
next
  case False
  assume "0 \<le> m"
  from celsiusToFahrenheit_rounded[OF this False] show ?thesis by auto
qed

lemma celsiusToFahrenheit_nonfinite:
  "celsiusToFahrenheit NaN = NaN" "celsiusToFahrenheit (Infinity s) = Infinity s"
  by (simp_all add: celsiusToFahrenheit_def)


lemma c2f_examples:
  "celsiusToFahrenheit (Finite False 0) = Finite False 32"
  "celsiusToFahrenheit (Finite False 100) = Finite False 212"
  "celsiusToFahrenheit (Finite True 40) = Finite True 40"
  "celsiusToFahrenheit (Finite False 37) = Finite False (3469179087958835 / 35184372088832)"
  "mk_float True (27315 / 100) = Finite True (2402652809016115 / 8796093022208)"
  "celsiusToFahrenheit (Finite True (2402652809016115 / 8796093022208)) =
     Finite True (4043300079518351 / 8796093022208)"
  by (simp_all add: celsiusToFahrenheit_def float_eval)



lemma celsiusToFahrenheit_total:
  assumes m: "0 \<le> m"
  shows "pow2 1023 \<le> 9 * m \<and> celsiusToFahrenheit (Finite s m) = Infinity s
    \<or> (\<exists>t f. celsiusToFahrenheit (Finite s m) = Finite t f
          \<and> \<bar>fval (Finite t f) - (fval (Finite s m) * 9 / 5 + 32)\<bar>
              \<le> (9 * m / 5 + 32) / 2 ^ 51 + 8 * pow2 (- 1075))"
proof (cases "mk_float s (m * 9) = Infinity s")
  case True
  then have inf: "celsiusToFahrenheit (Finite s m) = Infinity s"
    by (rule celsiusToFahrenheit_overflow)
  from celsiusToFahrenheit_overflow_range[OF m inf] inf show ?thesis by simp
next
  case False
  from celsiusToFahrenheit_rounded[OF m False] show ?thesis by blast
qed

lemma celsiusToFahrenheit_milli:
  assumes m: "0 \<le> m" and small: "m \<le> 10 ^ 9"
  shows "\<exists>t f. celsiusToFahrenheit (Finite s m) = Finite t f
          \<and> \<bar>fval (Finite t f) - (fval (Finite s m) * 9 / 5 + 32)\<bar> \<le> 1 / 1000"
proof -
  define h where "h = pow2 (- 1075)"
  have "pow2 34 \<le> pow2 1023" by (rule pow2_mono) simp
  then have "17179869184 \<le> pow2 1023" by (simp add: pow2_def)
  with small have "9 * m < pow2 1023" by (simp; linarith)
  from celsiusToFahrenheit_in_range[OF m this, of s] obtain t f where
    c: "celsiusToFahrenheit (Finite s m) = Finite t f"
    and e: "\<bar>fval (Finite t f) - (fval (Finite s m) * 9 / 5 + 32)\<bar>
        \<le> (9 * m / 5 + 32) / 2 ^ 51 + 8 * h"
    unfolding h_def by blast
  have "pow2 (- 1075) \<le> pow2 (- 20)" by (rule pow2_mono) simp
  then have h: "h \<le> 1 / 1048576" by (simp add: pow2_def h_def)
  have "(9 * m / 5 + 32) / 2 ^ 51 = 9 * m / 5 / 2 ^ 51 + 32 / 2 ^ 51"
    by (simp add: add_divide_distrib)
  also have "\<dots> + 8 * h \<le> 1 / 1000" using small m h by (simp; linarith)
  finally have "(9 * m / 5 + 32) / 2 ^ 51 + 8 * h \<le> 1 / 1000" .
  with e have "\<bar>fval (Finite t f) - (fval (Finite s m) * 9 / 5 + 32)\<bar> \<le> 1 / 1000"
    by linarith
  with c show ?thesis by blast
qed



section \<open>Properties of the string functions\<close>

lemma char_mem_iff: "c \<in> set cs \<longleftrightarrow> (of_char c :: nat) \<in> of_char ` set cs"
  by (simp add: inj_image_mem_iff inj_of_char)

lemma in_class_hex:
  "in_class [(CHR ''a'', CHR ''f''), (CHR ''0'', CHR ''9'')] c \<longleftrightarrow> c \<in> set ''0123456789abcdef''"
proof -
  obtain n :: nat where n: "of_char c = n" by simp
  have "(97 \<le> n \<and> n \<le> 102 \<or> 48 \<le> n \<and> n \<le> 57) \<longleftrightarrow>
        n \<in> {48, 49, 50, 51, 52, 53, 54, 55, 56, 57, 97, 98, 99, 100, 101, 102}"
    unfolding insert_iff empty_iff by presburger
  then show ?thesis
    unfolding char_mem_iff[of c] in_class_def n[symmetric] by simp
qed

lemma repeat_class:
  "i \<le> length s \<Longrightarrow> ((\<lambda>ps. concat (map (rmatch (CharClass rs) s) ps)) ^^ n) [i] =
     (if i + n \<le> length s \<and> (\<forall>k<n. in_class rs (s ! (i + k))) then [i + n] else [])"
proof (induction n arbitrary: i)
  case 0
  then show ?case by simp
next
  case (Suc n)
  note \<open>i \<le> length s\<close>
  let ?step = "\<lambda>ps. concat (map (rmatch (CharClass rs) s) ps)"
  have nil: "(?step ^^ n) [] = []" by (induction n) simp_all
  have unfold: "(?step ^^ Suc n) [i] = (?step ^^ n) (?step [i])"
    by (simp only: funpow_Suc_right o_apply)
  show ?case
  proof (cases "i < length s \<and> in_class rs (s ! i)")
    case True
    then have "(?step ^^ Suc n) [i] = (?step ^^ n) [Suc i]"
      unfolding unfold by simp
    also have "\<dots> = (if Suc i + n \<le> length s \<and> (\<forall>k<n. in_class rs (s ! (Suc i + k)))
                     then [Suc i + n] else [])"
      using True by (intro Suc.IH) simp
    also have "\<dots> = (if i + Suc n \<le> length s \<and> (\<forall>k<Suc n. in_class rs (s ! (i + k)))
                     then [i + Suc n] else [])"
      using True by (auto simp: less_Suc_eq_0_disj)
    finally show ?thesis .
  next
    case False
    then have "(?step ^^ Suc n) [i] = []"
      unfolding unfold using nil by auto
    moreover have "\<not> (i + Suc n \<le> length s \<and> (\<forall>k<Suc n. in_class rs (s ! (i + k))))"
    proof
      assume a: "i + Suc n \<le> length s \<and> (\<forall>k<Suc n. in_class rs (s ! (i + k)))"
      then have "i < length s" by simp
      moreover from a have "in_class rs (s ! (i + 0))" by blast
      ultimately show False using False by simp
    qed
    ultimately show ?thesis by (simp only: if_False)
  qed
qed

lemma MatchString_apiKeyRegex: "MatchString apiKeyRegex s \<longleftrightarrow> hex32 s"
proof -
  let ?rs = "[(CHR ''a'', CHR ''f''), (CHR ''0'', CHR ''9'')]"
  let ?body = "Seq (Repeat (CharClass ?rs) 32) EndText"
  let ?ok = "32 \<le> length s \<and> (\<forall>k<32. s ! k \<in> set ''0123456789abcdef'')"
  have start: "rmatch apiKeyRegex s i = (if i = 0 then rmatch ?body s 0 else [])" for i
    by (simp add: apiKeyRegex_def)
  have "rmatch (Repeat (CharClass ?rs) 32) s 0 =
        ((\<lambda>ps. concat (map (rmatch (CharClass ?rs) s) ps)) ^^ 32) [0]"
    by (simp only: rmatch.simps(4))
  also have "\<dots> = (if 0 + 32 \<le> length s \<and> (\<forall>k<32. in_class ?rs (s ! (0 + k)))
                   then [0 + 32] else [])"
    by (rule repeat_class) simp
  also have "\<dots> = (if ?ok then [32] else [])"
    by (simp only: add_0 in_class_hex)
  finally have rep: "rmatch (Repeat (CharClass ?rs) 32) s 0 = (if ?ok then [32] else [])" .
  have body: "rmatch ?body s 0 = concat (map (rmatch EndText s) (if ?ok then [32] else []))"
    by (simp only: rmatch.simps(5) rep)
  have "MatchString apiKeyRegex s \<longleftrightarrow> rmatch ?body s 0 \<noteq> []"
    unfolding MatchString_def list_ex_iff start by auto
  also have "\<dots> \<longleftrightarrow> length s = 32 \<and> (\<forall>k<32. s ! k \<in> set ''0123456789abcdef'')"
    unfolding body by (cases ?ok) auto
  also have "\<dots> \<longleftrightarrow> hex32 s"
    unfolding hex32_def list_all_length by auto
  finally show ?thesis .
qed

lemma leading_none:
  assumes "[] \<notin> set rs" and "c \<notin> hd ` set rs"
  shows "leading rs (c # cs) = 0"
proof -
  have "\<not> prefix r (c # cs)" if "r \<in> set rs" for r
  proof
    assume p: "prefix r (c # cs)"
    from that assms(1) have "r \<noteq> []" by auto
    then obtain x xs where r: "r = x # xs" by (cases r) auto
    with p have "x = c" by simp
    with r that have "c \<in> hd ` set rs" by force
    with assms(2) show False by simp
  qed
  then have "filter (\<lambda>r. prefix r (c # cs)) rs = []" by (simp add: filter_empty_conv)
  then show ?thesis by (simp add: leading_def)
qed

lemma strip_left_none:
  assumes "[] \<notin> set rs" and "c \<notin> hd ` set rs"
  shows "strip_left rs (c # cs) = c # cs"
  using leading_none[OF assms] by (subst strip_left.simps) simp

lemma hex_not_space_start: "c \<in> set ''0123456789abcdef'' \<Longrightarrow> c \<notin> hd ` set space_runes"
  by (auto simp: space_runes_def)

lemma hex_not_space_end: "c \<in> set ''0123456789abcdef'' \<Longrightarrow> c \<notin> hd ` set (map rev space_runes)"
  by (auto simp: space_runes_def)

lemma TrimSpace_hex32: assumes "hex32 s" shows "TrimSpace s = s"
proof -
  from assms have len: "length s = 32" and all: "\<forall>c\<in>set s. c \<in> set ''0123456789abcdef''"
    by (simp_all add: hex32_def list_all_iff)
  from len obtain c cs where s: "s = c # cs" by (cases s) auto
  from len have "rev s \<noteq> []" by auto
  then obtain d ds where r: "rev s = d # ds" by (cases "rev s") auto
  have "c \<in> set s" using s by simp
  then have c: "c \<notin> hd ` set space_runes" using all hex_not_space_start by blast
  have "d \<in> set s" using r by (metis list.set_intros(1) set_rev)
  then have d: "d \<notin> hd ` set (map rev space_runes)" using all hex_not_space_end by blast
  have n1: "[] \<notin> set space_runes" by (simp add: space_runes_def)
  have n2: "[] \<notin> set (map rev space_runes)" by (simp add: space_runes_def)
  have "strip_left space_runes s = s" unfolding s by (rule strip_left_none[OF n1 c])
  moreover have "strip_left (map rev space_runes) (rev s) = rev s"
    unfolding r by (rule strip_left_none[OF n2 d])
  ultimately show ?thesis by (simp add: TrimSpace_def)
qed

lemma prefix_free:
  "list_all (\<lambda>q. list_all (\<lambda>r. \<forall>s. prefix q (r @ s) \<longrightarrow> q = r) space_runes) space_runes"
  by (simp add: space_runes_def)

lemma suffix_free:
  "list_all (\<lambda>q. list_all (\<lambda>r. \<forall>s. prefix (rev q) (rev r @ s) \<longrightarrow> q = r) space_runes) space_runes"
  by (simp add: space_runes_def)


lemma leading_first:
  assumes "r \<in> set rs" and "\<And>q. q \<in> set rs \<Longrightarrow> prefix q (r @ s) \<Longrightarrow> q = r"
  shows "leading rs (r @ s) = length r"
proof -
  have "r \<in> set (filter (\<lambda>q. prefix q (r @ s)) rs)" using assms(1) by simp
  then obtain q qs where f: "filter (\<lambda>q. prefix q (r @ s)) rs = q # qs"
    by (cases "filter (\<lambda>q. prefix q (r @ s)) rs") auto
  then have "q \<in> set (filter (\<lambda>q. prefix q (r @ s)) rs)" by simp
  then have "q = r" using assms(2) by simp
  with f show ?thesis by (simp add: leading_def)
qed

lemma leading_space_rune:
  assumes "r \<in> set space_runes"
  shows "leading space_runes (r @ s) = length r"
  using assms prefix_free by (intro leading_first) (auto simp: list_all_iff)

lemma leading_space_rune_rev:
  assumes "r \<in> set space_runes"
  shows "leading (map rev space_runes) (rev r @ s) = length (rev r)"
proof (rule leading_first)
  show "rev r \<in> set (map rev space_runes)" using assms by simp
  fix q assume "q \<in> set (map rev space_runes)" and p: "prefix q (rev r @ s)"
  then obtain q' where "q' \<in> set space_runes" and q: "q = rev q'" by auto
  with assms p suffix_free have "q' = r" by (auto simp: list_all_iff)
  with q show "q = rev r" by simp
qed

lemma leading_nil: "leading rs [] = 0"
proof (cases "filter (\<lambda>r. prefix r []) rs")
  case Nil
  then show ?thesis by (simp add: leading_def)
next
  case (Cons q qs)
  then have "q \<in> set (filter (\<lambda>r. prefix r []) rs)" by simp
  then have "q = []" by simp
  with Cons show ?thesis by (simp add: leading_def)
qed

lemma strip_left_stop: "leading rs s = 0 \<Longrightarrow> strip_left rs s = s"
  by (subst strip_left.simps) simp

lemma strip_left_concat:
  assumes step: "\<And>r s. r \<in> set rs \<Longrightarrow> leading rs (r @ s) = length r"
    and ne: "[] \<notin> set rs" and pre: "set pre \<subseteq> set rs" and stop: "leading rs s = 0"
  shows "strip_left rs (concat pre @ s) = s"
  using pre
proof (induction pre)
  case Nil
  then show ?case using stop by (simp add: strip_left_stop)
next
  case (Cons r pre)
  then have r: "r \<in> set rs" and "set pre \<subseteq> set rs" by simp_all
  with Cons.IH have ih: "strip_left rs (concat pre @ s) = s" by simp
  from r ne have "r \<noteq> []" by auto
  have l: "leading rs (r @ concat pre @ s) = length r" using r by (rule step)
  have "strip_left rs (r @ concat pre @ s) = strip_left rs (drop (length r) (r @ concat pre @ s))"
    using l \<open>r \<noteq> []\<close> by (subst strip_left.simps) simp
  with ih show ?case by simp
qed

lemma leading_no_start:
  assumes "s \<noteq> []" and "hd s \<notin> hd ` set rs" and "[] \<notin> set rs"
  shows "leading rs s = 0"
proof -
  have "\<not> prefix r s" if "r \<in> set rs" for r
  proof
    assume p: "prefix r s"
    from that assms(3) have "r \<noteq> []" by auto
    with p assms(1) have "hd r = hd s" by (cases r; cases s) auto
    with that have "hd s \<in> hd ` set rs" by (metis imageI)
    with assms(2) show False by simp
  qed
  then have "filter (\<lambda>r. prefix r s) rs = []" by (simp add: filter_empty_conv)
  then show ?thesis by (simp add: leading_def)
qed

lemma TrimSpace_padded:
  assumes pre: "set pre \<subseteq> set space_runes" and post: "set post \<subseteq> set space_runes"
    and k: "k \<noteq> []" "hd k \<notin> hd ` set space_runes" "last k \<notin> last ` set space_runes"
  shows "TrimSpace (concat pre @ k @ concat post) = k"
proof -
  have ne: "[] \<notin> set space_runes" by (simp add: space_runes_def)
  have ne': "[] \<notin> set (map rev space_runes)" by (simp add: space_runes_def)
  have "k @ concat post \<noteq> []" "hd (k @ concat post) \<notin> hd ` set space_runes"
    using k by simp_all
  then have "leading space_runes (k @ concat post) = 0" using ne by (rule leading_no_start)
  with leading_space_rune ne pre
  have left: "strip_left space_runes (concat pre @ k @ concat post) = k @ concat post"
    by (rule strip_left_concat)
  have rv: "rev (k @ concat post) = concat (map rev (rev post)) @ rev k"
    by (simp add: rev_concat)
  have "hd (rev r) = last r" if "r \<in> set space_runes" for r
    using that ne by (cases "r = []") (simp_all add: hd_rev)
  then have hdl: "hd ` rev ` set space_runes = last ` set space_runes"
    by (simp add: image_image)
  have "hd (rev k) = last k" using k(1) by (simp add: hd_rev)
  then have "rev k \<noteq> []" "hd (rev k) \<notin> hd ` set (map rev space_runes)"
    using k hdl by simp_all
  then have stop: "leading (map rev space_runes) (rev k) = 0" using ne' by (rule leading_no_start)
  have step: "leading (map rev space_runes) (r @ s) = length r"
    if "r \<in> set (map rev space_runes)" for r s
  proof -
    from that obtain q where "q \<in> set space_runes" "r = rev q" by auto
    then show ?thesis using leading_space_rune_rev[of q s] by simp
  qed
  have sub: "set (map rev (rev post)) \<subseteq> set (map rev space_runes)" using post by auto
  from step ne' sub stop
  have "strip_left (map rev space_runes) (concat (map rev (rev post)) @ rev k) = rev k"
    by (rule strip_left_concat)
  then show ?thesis unfolding TrimSpace_def left rv by simp
qed

lemma TrimSpace_blank:
  assumes pre: "set pre \<subseteq> set space_runes"
  shows "TrimSpace (concat pre) = []"
proof -
  have ne: "[] \<notin> set space_runes" by (simp add: space_runes_def)
  from leading_space_rune ne pre leading_nil
  have "strip_left space_runes (concat pre @ []) = []" by (rule strip_left_concat)
  then show ?thesis by (simp add: TrimSpace_def strip_left_stop leading_nil)
qed

lemma hex_not_space_last: "c \<in> set ''0123456789abcdef'' \<Longrightarrow> c \<notin> last ` set space_runes"
  by (auto simp: space_runes_def)

lemma hex32_trimmed:
  assumes "hex32 k"
  shows "k \<noteq> []" "hd k \<notin> hd ` set space_runes" "last k \<notin> last ` set space_runes"
proof -
  from assms have len: "length k = 32" and all: "\<forall>c\<in>set k. c \<in> set ''0123456789abcdef''"
    by (simp_all add: hex32_def list_all_iff)
  from len show ne: "k \<noteq> []" by auto
  then have "hd k \<in> set k" "last k \<in> set k" by simp_all
  with all show "hd k \<notin> hd ` set space_runes" "last k \<notin> last ` set space_runes"
    using hex_not_space_start hex_not_space_last by blast+
qed

lemma TrimSpace_bad_key:
  "TrimSpace ''def0123456789abcdef0123456789xyz'' = ''def0123456789abcdef0123456789xyz''"
  using TrimSpace_padded[of "[]" "[]" "''def0123456789abcdef0123456789xyz''"]
  by (simp add: space_runes_def)

section \<open>Properties of the handler\<close>

lemma getAPIKey_hex32:
  assumes "env ''OPENWEATHER_API_KEY'' = Some k" and "hex32 k"
  shows "getAPIKey env = (k, None)"
proof -
  have "TrimSpace (Getenv env ''OPENWEATHER_API_KEY'') = k"
    using assms by (simp add: Getenv_def TrimSpace_hex32)
  moreover have "k \<noteq> []" using assms(2) by (auto simp: hex32_def)
  ultimately show ?thesis
    using assms(2) by (simp add: getAPIKey_def MatchString_apiKeyRegex)
qed

lemma getAPIKey_padded:
  assumes "set pre \<subseteq> set space_runes" and "set post \<subseteq> set space_runes"
    and "env ''OPENWEATHER_API_KEY'' = Some (concat pre @ k @ concat post)" and "hex32 k"
  shows "getAPIKey env = (k, None)"
proof -
  have "TrimSpace (concat pre @ k @ concat post) = k"
    using assms by (intro TrimSpace_padded) (simp_all add: hex32_trimmed)
  then have "TrimSpace (Getenv env ''OPENWEATHER_API_KEY'') = k"
    using assms(3) by (simp add: Getenv_def)
  moreover have "k \<noteq> []" using assms(4) by (rule hex32_trimmed)
  ultimately show ?thesis
    using assms(4) by (simp add: getAPIKey_def MatchString_apiKeyRegex)
qed

lemma getAPIKey_padded_key:
  "getAPIKey [''OPENWEATHER_API_KEY'' \<mapsto>
         [CHR 0x20, CHR 0x09, CHR 0xC2, CHR 0xA0] @ ''abcdef0123456789abcdef0123456789''
           @ [CHR 0x20, CHR 0x0D, CHR 0x0A]] =
       (''abcdef0123456789abcdef0123456789'', None)"
  by (rule getAPIKey_padded[where pre = "[[CHR 0x20], [CHR 0x09], [CHR 0xC2, CHR 0xA0]]"
        and post = "[[CHR 0x20], [CHR 0x0D], [CHR 0x0A]]"])
     (simp_all add: space_runes_def hex32_def)

lemma getAPIKey_not_hex32:
  assumes "TrimSpace (Getenv env ''OPENWEATHER_API_KEY'') = k" and "k \<noteq> []" and "\<not> hex32 k"
  shows "getAPIKey env = (k, Some ''API key failed pattern check'')"
  using assms by (simp add: getAPIKey_def MatchString_apiKeyRegex)

lemma weatherHandler_reply:
  assumes "getAPIKey (environ w) = (k, e)" and "k \<noteq> []"
    and "validateLatitude (query_Get q ''lat'') = (la, None)"
    and "validateLongitude (query_Get q ''lon'') = (lo, None)"
    and "http_Get w (request_url la lo k) = Inr b"
    and "json_Decode w b = Inr wd"
  shows "weatherHandler w q = (weather_reply wd, [])"
  using assms by (simp add: weatherHandler_def)

lemma weatherHandler_get_error:
  assumes "getAPIKey (environ w) = (k, e)" and "k \<noteq> []"
    and "validateLatitude (query_Get q ''lat'') = (la, None)"
    and "validateLongitude (query_Get q ''lon'') = (lo, None)"
    and "http_Get w (request_url la lo k) = Inl msg"
  shows "weatherHandler w q = (Response (http_Error msg 500), [])"
  using assms by (simp add: weatherHandler_def)

lemma weatherHandler_decode_error:
  assumes "getAPIKey (environ w) = (k, e)" and "k \<noteq> []"
    and "validateLatitude (query_Get q ''lat'') = (la, None)"
    and "validateLongitude (query_Get q ''lon'') = (lo, None)"
    and "http_Get w (request_url la lo k) = Inr b"
    and "json_Decode w b = Inl msg"
  shows "weatherHandler w q = (Response (http_Error msg 500), [])"
  using assms by (simp add: weatherHandler_def)

lemma weatherHandler_bad_latitude:
  assumes "getAPIKey (environ w) = (k, e)" and "k \<noteq> []"
    and "validateLatitude (query_Get q ''lat'') = (la, Some msg)"
  shows "weatherHandler w q =
    (Response (http_Error ''Invalid latitude'' 400), [''input error: '' @ msg])"
  using assms by (simp add: weatherHandler_def)

lemma weatherHandler_bad_longitude:
  assumes "getAPIKey (environ w) = (k, e)" and "k \<noteq> []"
    and "validateLatitude (query_Get q ''lat'') = (la, None)"
    and "validateLongitude (query_Get q ''lon'') = (lo, Some msg)"
  shows "weatherHandler w q =
    (Response (http_Error ''Invalid longitude'' 400), [''input error: '' @ msg])"
  using assms by (simp add: weatherHandler_def)

lemma weatherHandler_no_key:
  assumes "fst (getAPIKey (environ w)) = []"
  shows "weatherHandler w q = (Response (http_Error ''invalid API key'' 500), [])"
  using assms by (cases "getAPIKey (environ w)") (simp add: weatherHandler_def)

lemma scan_examples:
  "special ''37.7749'' = None \<and> readFloat ''37.7749'' = Some (False, False, 377749, - 4, [])
   \<and> special ''-122.4194'' = None
   \<and> readFloat ''-122.4194'' = Some (True, False, 1224194, - 4, [])
   \<and> special ''NaN'' = Some (NaN, 3)
   \<and> special ''invalid_latitude'' = None \<and> readFloat ''invalid_latitude'' = None"
  by code_simp

lemma float_of_scan_lat:
  "float_of_scan False False 377749 (- 4) = Inr (Finite False (332271534304605 / 8796093022208))"
  by (simp add: float_of_scan_def pow10_def float_eval)

lemma float_of_scan_lon:
  "float_of_scan True False 1224194 (- 4) = Inr (Finite True (538406215061445 / 4398046511104))"
  by (simp add: float_of_scan_def pow10_def float_eval)

lemma ParseFloat_examples:
  "ParseFloat ''37.7749'' = Inr (Finite False (332271534304605 / 8796093022208))"
  "ParseFloat ''-122.4194'' = Inr (Finite True (538406215061445 / 4398046511104))"
  "ParseFloat ''NaN'' = Inr NaN"
  "ParseFloat ''invalid_latitude'' = Inl ErrSyntax"
  by (simp_all add: ParseFloat_def scan_examples float_of_scan_lat float_of_scan_lon)

lemma fmt_f_examples:
  "fmt_f 6 (Finite False (332271534304605 / 8796093022208)) = ''37.774900''"
  "fmt_f 6 (Finite True (538406215061445 / 4398046511104)) = ''-122.419400''"
  by (simp_all add: float_eval fmt_eval)

lemma validate_examples:
  "validateLatitude ''37.7749'' = (Finite False (332271534304605 / 8796093022208), None)"
  "validateLongitude ''-122.4194'' = (Finite True (538406215061445 / 4398046511104), None)"
  "validateLatitude ''NaN'' = (NaN, None)"
  "validateLongitude ''NaN'' = (NaN, None)"
  "validateLatitude ''invalid_latitude'' =
     (Finite False 0, Some ''invalid latitude format: invalid_latitude'')"
  by (simp_all add: validateLatitude_def validateLongitude_def ParseFloat_examples fgt_def)

lemma test_key_hex32: "hex32 test_key"
  by (simp add: test_key_def hex32_def)

lemma test_key_nonempty: "test_key \<noteq> []"
  by (simp add: test_key_def)

lemma getAPIKey_test_key: "getAPIKey [''OPENWEATHER_API_KEY'' \<mapsto> test_key] = (test_key, None)"
  by (rule getAPIKey_hex32[OF _ test_key_hex32]) simp

lemma getAPIKey_bad_key:
  "getAPIKey [''OPENWEATHER_API_KEY'' \<mapsto> bad_key] = (bad_key, Some ''API key failed pattern check'')"
proof (rule getAPIKey_not_hex32)
  show "TrimSpace (Getenv [''OPENWEATHER_API_KEY'' \<mapsto> bad_key] ''OPENWEATHER_API_KEY'') = bad_key"
    unfolding bad_key_def Getenv_def by code_simp
  show "bad_key \<noteq> []" by (simp add: bad_key_def)
  show "\<not> hex32 bad_key" by (simp add: bad_key_def hex32_def)
qed

lemma query_san_francisco:
  "query_Get san_francisco ''lat'' = ''37.7749''" "query_Get san_francisco ''lon'' = ''-122.4194''"
  by (simp_all add: query_Get_def san_francisco_def)

lemma getTemperature_20: "getTemperature (Finite False 20) = ''Moderate (68F / 20C)''"
  by (simp add: classifier_eval)


lemma Sprintf0_clear_sky:
  "Sprintf0 ''Current Temperature:\<newline>  Weather     : clear sky\<newline>  Temperature : Moderate (68F / 20C)''
     = ''Current Temperature:\<newline>  Weather     : clear sky\<newline>  Temperature : Moderate (68F / 20C)''"
  by code_simp

lemma Sprintf0_overcast:
  "Sprintf0 ''Current Temperature:\<newline>  Weather     : overcast clouds: 85-100%\<newline>  Temperature : Moderate (68F / 20C)''
     = ''Current Temperature:\<newline>  Weather     : overcast clouds: 85-100%!\<newline>(MISSING)  Temperature : Moderate (68F / 20C)''"
  by code_simp






section \<open>The claims\<close>




text \<open>
  C8. \<open>celsiusToFahrenheit\<close> computes \<open>(celsius \<times> 9 / 5) + 32\<close> in float64 arithmetic. NaN
  gives NaN and an infinity gives itself. For a finite \<open>c\<close> the result is \<open>c \<times> 9/5 + 32\<close> up
  to the three roundings, within \<open>(9|c|/5 + 32) / 2\<^sup>5\<^sup>1 + 2\<^sup>-\<^sup>1\<^sup>0\<^sup>7\<^sup>2\<close> of it, unless the product
  \<open>9|c|\<close> overflows, which needs \<open>9|c| \<ge> 2\<^sup>1\<^sup>0\<^sup>2\<^sup>3\<close> and gives the infinity of the sign of \<open>c\<close>; for
  \<open>|c|\<close> up to \<open>10\<^sup>9\<close> this is within 0.001. The values of the specification: 0 gives 32, 100
  gives 212 and -40 gives -40 exactly; 37 gives a float64 within 0.001 of 98.6, and the
  float64 nearest to -273.15 gives one within 0.001 of -459.67.
\<close>

theorem celsiusToFahrenheit_formula:
  "celsiusToFahrenheit NaN = NaN
   \<and> celsiusToFahrenheit (Infinity s) = Infinity s
   \<and> (0 \<le> m \<longrightarrow>
        pow2 1023 \<le> 9 * m \<and> celsiusToFahrenheit (Finite s m) = Infinity s
        \<or> (\<exists>t f. celsiusToFahrenheit (Finite s m) = Finite t f
              \<and> \<bar>fval (Finite t f) - (fval (Finite s m) * 9 / 5 + 32)\<bar>
                  \<le> (9 * m / 5 + 32) / 2 ^ 51 + 8 * pow2 (- 1075)))
   \<and> (0 \<le> m \<and> 9 * m < pow2 1023 \<longrightarrow>
        (\<exists>t f. celsiusToFahrenheit (Finite s m) = Finite t f
              \<and> \<bar>fval (Finite t f) - (fval (Finite s m) * 9 / 5 + 32)\<bar>
                  \<le> (9 * m / 5 + 32) / 2 ^ 51 + 8 * pow2 (- 1075)))
   \<and> (0 \<le> m \<and> m \<le> 10 ^ 9 \<longrightarrow>
        (\<exists>t f. celsiusToFahrenheit (Finite s m) = Finite t f
              \<and> \<bar>fval (Finite t f) - (fval (Finite s m) * 9 / 5 + 32)\<bar> \<le> 1 / 1000))
   \<and> celsiusToFahrenheit (Finite False 0) = Finite False 32
   \<and> celsiusToFahrenheit (Finite False 100) = Finite False 212
   \<and> celsiusToFahrenheit (Finite True 40) = Finite True 40
   \<and> celsiusToFahrenheit (Finite False 37) = Finite False (3469179087958835 / 35184372088832)
   \<and> \<bar>fval (celsiusToFahrenheit (Finite False 37)) - 986 / 10\<bar> \<le> 1 / 1000
   \<and> mk_float True (27315 / 100) = Finite True (2402652809016115 / 8796093022208)
   \<and> celsiusToFahrenheit (Finite True (2402652809016115 / 8796093022208)) =
       Finite True (4043300079518351 / 8796093022208)
   \<and> \<bar>fval (celsiusToFahrenheit (Finite True (2402652809016115 / 8796093022208)))
        - (- 45967 / 100)\<bar> \<le> 1 / 1000"
proof -
  have general: "0 \<le> m \<longrightarrow>
        pow2 1023 \<le> 9 * m \<and> celsiusToFahrenheit (Finite s m) = Infinity s
        \<or> (\<exists>t f. celsiusToFahrenheit (Finite s m) = Finite t f
              \<and> \<bar>fval (Finite t f) - (fval (Finite s m) * 9 / 5 + 32)\<bar>
                  \<le> (9 * m / 5 + 32) / 2 ^ 51 + 8 * pow2 (- 1075))"
    using celsiusToFahrenheit_total[of m s] by blast
  have range: "0 \<le> m \<and> 9 * m < pow2 1023 \<longrightarrow>
        (\<exists>t f. celsiusToFahrenheit (Finite s m) = Finite t f
              \<and> \<bar>fval (Finite t f) - (fval (Finite s m) * 9 / 5 + 32)\<bar>
                  \<le> (9 * m / 5 + 32) / 2 ^ 51 + 8 * pow2 (- 1075))"
    using celsiusToFahrenheit_in_range[of m s] by blast
  have milli: "0 \<le> m \<and> m \<le> 10 ^ 9 \<longrightarrow>
        (\<exists>t f. celsiusToFahrenheit (Finite s m) = Finite t f
              \<and> \<bar>fval (Finite t f) - (fval (Finite s m) * 9 / 5 + 32)\<bar> \<le> 1 / 1000)"
    using celsiusToFahrenheit_milli[of m s] by blast
  have t37: "\<bar>fval (celsiusToFahrenheit (Finite False 37)) - 986 / 10\<bar> \<le> 1 / 1000"
    unfolding c2f_examples by simp
  have t273: "\<bar>fval (celsiusToFahrenheit (Finite True (2402652809016115 / 8796093022208)))
        - (- 45967 / 100)\<bar> \<le> 1 / 1000"
    unfolding c2f_examples by simp
  from celsiusToFahrenheit_nonfinite general range milli c2f_examples t37 t273
  show ?thesis by blast
qed

theorem celsiusToFahrenheit_formula_witness:
  "(0::rat) \<le> 37 \<and> 9 * 37 < pow2 1023 \<and> (37::rat) \<le> 10 ^ 9
   \<and> (\<exists>t f. celsiusToFahrenheit (Finite False 37) = Finite t f
         \<and> \<bar>fval (Finite t f) - (fval (Finite False 37) * 9 / 5 + 32)\<bar>
             \<le> (9 * 37 / 5 + 32) / 2 ^ 51 + 8 * pow2 (- 1075))
   \<and> (\<exists>t f. celsiusToFahrenheit (Finite False 37) = Finite t f
         \<and> \<bar>fval (Finite t f) - (fval (Finite False 37) * 9 / 5 + 32)\<bar> \<le> 1 / 1000)"
proof -
  have range: "9 * 37 < pow2 1023" using pow2_small(3) by linarith
  have m: "(0::rat) \<le> 37" "(37::rat) \<le> 10 ^ 9" by simp_all
  from celsiusToFahrenheit_formula[of False 37] range m show ?thesis by blast
qed

text \<open>
  C6. \<open>getAPIKey\<close> reads \<^verbatim>\<open>OPENWEATHER_API_KEY\<close> and trims it. When the result is empty
  (in particular when the variable is not set) it fails with the message
  \<^verbatim>\<open>OPENWEATHER_API_KEY is not set\<close>; when the trimmed value is not 32 lowercase hex digits,
  which is what matching \<^verbatim>\<open>^[a-f0-9]{32}$\<close> means, it fails with the pattern message; and
  otherwise it succeeds with exactly the trimmed key, which is the value of the variable
  itself when that value is 32 lowercase hex digits. Trimming is said without the
  function that does it: when the value of the variable is a key \<open>k\<close> between two runs
  \<open>pre\<close> and \<open>post\<close> of white space characters, the result is decided by \<open>k\<close> alone and the
  key returned is \<open>k\<close>; a value of white space only counts as not set. So a key of 32
  hex digits padded with spaces, a tab, a no-break space, a line feed or a carriage
  return is accepted and returned without the padding.
\<close>

theorem getAPIKey_cases:
  "(TrimSpace (Getenv env ''OPENWEATHER_API_KEY'') = [] \<longrightarrow>
      getAPIKey env = ([], Some ''OPENWEATHER_API_KEY is not set''))
   \<and> (TrimSpace (Getenv env ''OPENWEATHER_API_KEY'') \<noteq> [] \<and>
        \<not> hex32 (TrimSpace (Getenv env ''OPENWEATHER_API_KEY'')) \<longrightarrow>
      getAPIKey env =
        (TrimSpace (Getenv env ''OPENWEATHER_API_KEY''), Some ''API key failed pattern check''))
   \<and> (hex32 (TrimSpace (Getenv env ''OPENWEATHER_API_KEY'')) \<longrightarrow>
      getAPIKey env = (TrimSpace (Getenv env ''OPENWEATHER_API_KEY''), None))
   \<and> (env ''OPENWEATHER_API_KEY'' = None \<longrightarrow>
      getAPIKey env = ([], Some ''OPENWEATHER_API_KEY is not set''))
   \<and> (\<forall>k. env ''OPENWEATHER_API_KEY'' = Some k \<and> hex32 k \<longrightarrow> getAPIKey env = (k, None))
   \<and> (set pre \<subseteq> set space_runes \<and> env ''OPENWEATHER_API_KEY'' = Some (concat pre) \<longrightarrow>
        getAPIKey env = ([], Some ''OPENWEATHER_API_KEY is not set''))
   \<and> (set pre \<subseteq> set space_runes \<and> set post \<subseteq> set space_runes
        \<and> env ''OPENWEATHER_API_KEY'' = Some (concat pre @ k @ concat post) \<and> hex32 k \<longrightarrow>
        getAPIKey env = (k, None))
   \<and> (set pre \<subseteq> set space_runes \<and> set post \<subseteq> set space_runes
        \<and> env ''OPENWEATHER_API_KEY'' = Some (concat pre @ k @ concat post)
        \<and> k \<noteq> [] \<and> hd k \<notin> hd ` set space_runes \<and> last k \<notin> last ` set space_runes
        \<and> \<not> hex32 k \<longrightarrow>
        getAPIKey env = (k, Some ''API key failed pattern check''))
   \<and> getAPIKey [''OPENWEATHER_API_KEY'' \<mapsto>
         [CHR 0x20, CHR 0x09, CHR 0xC2, CHR 0xA0] @ ''abcdef0123456789abcdef0123456789''
           @ [CHR 0x20, CHR 0x0D, CHR 0x0A]] =
       (''abcdef0123456789abcdef0123456789'', None)"
proof -
  let ?k = "TrimSpace (Getenv env ''OPENWEATHER_API_KEY'')"
  have unset: "TrimSpace [] = []"
    by (simp add: TrimSpace_def strip_left.simps leading_def space_runes_def)
  have nonempty: "hex32 k \<Longrightarrow> k \<noteq> []" for k by (auto simp: hex32_def)
  have c1: "?k = [] \<longrightarrow> getAPIKey env = ([], Some ''OPENWEATHER_API_KEY is not set'')"
    by (simp add: getAPIKey_def Let_def)
  have c2: "?k \<noteq> [] \<and> \<not> hex32 ?k \<longrightarrow>
      getAPIKey env = (?k, Some ''API key failed pattern check'')"
    by (simp add: getAPIKey_def Let_def MatchString_apiKeyRegex)
  have c3: "hex32 ?k \<longrightarrow> getAPIKey env = (?k, None)"
    using nonempty[of ?k] by (simp add: getAPIKey_def Let_def MatchString_apiKeyRegex)
  have c4: "env ''OPENWEATHER_API_KEY'' = None \<longrightarrow>
      getAPIKey env = ([], Some ''OPENWEATHER_API_KEY is not set'')"
  proof
    assume "env ''OPENWEATHER_API_KEY'' = None"
    then have "?k = []" by (simp add: Getenv_def unset)
    with c1 show "getAPIKey env = ([], Some ''OPENWEATHER_API_KEY is not set'')" by blast
  qed
  have c5: "\<forall>k. env ''OPENWEATHER_API_KEY'' = Some k \<and> hex32 k \<longrightarrow> getAPIKey env = (k, None)"
  proof (intro allI impI)
    fix k assume a: "env ''OPENWEATHER_API_KEY'' = Some k \<and> hex32 k"
    then have "?k = k" by (simp add: Getenv_def TrimSpace_hex32)
    with a c3 show "getAPIKey env = (k, None)" by simp
  qed
  have c6: "set pre \<subseteq> set space_runes \<and> env ''OPENWEATHER_API_KEY'' = Some (concat pre) \<longrightarrow>
        getAPIKey env = ([], Some ''OPENWEATHER_API_KEY is not set'')"
  proof
    assume a: "set pre \<subseteq> set space_runes \<and> env ''OPENWEATHER_API_KEY'' = Some (concat pre)"
    then have "?k = []" by (simp add: Getenv_def TrimSpace_blank)
    with c1 show "getAPIKey env = ([], Some ''OPENWEATHER_API_KEY is not set'')" by blast
  qed
  have c7: "set pre \<subseteq> set space_runes \<and> set post \<subseteq> set space_runes
        \<and> env ''OPENWEATHER_API_KEY'' = Some (concat pre @ k @ concat post) \<and> hex32 k \<longrightarrow>
        getAPIKey env = (k, None)"
  proof
    assume a: "set pre \<subseteq> set space_runes \<and> set post \<subseteq> set space_runes
        \<and> env ''OPENWEATHER_API_KEY'' = Some (concat pre @ k @ concat post) \<and> hex32 k"
    then have "TrimSpace (concat pre @ k @ concat post) = k"
      by (intro TrimSpace_padded) (simp_all add: hex32_trimmed)
    with a have "?k = k" by (simp add: Getenv_def)
    with a c3 show "getAPIKey env = (k, None)" by simp
  qed
  have c8: "set pre \<subseteq> set space_runes \<and> set post \<subseteq> set space_runes
        \<and> env ''OPENWEATHER_API_KEY'' = Some (concat pre @ k @ concat post)
        \<and> k \<noteq> [] \<and> hd k \<notin> hd ` set space_runes \<and> last k \<notin> last ` set space_runes
        \<and> \<not> hex32 k \<longrightarrow>
        getAPIKey env = (k, Some ''API key failed pattern check'')"
  proof
    assume a: "set pre \<subseteq> set space_runes \<and> set post \<subseteq> set space_runes
        \<and> env ''OPENWEATHER_API_KEY'' = Some (concat pre @ k @ concat post)
        \<and> k \<noteq> [] \<and> hd k \<notin> hd ` set space_runes \<and> last k \<notin> last ` set space_runes
        \<and> \<not> hex32 k"
    then have "TrimSpace (concat pre @ k @ concat post) = k"
      by (intro TrimSpace_padded) simp_all
    with a have "?k = k" by (simp add: Getenv_def)
    with a c2 show "getAPIKey env = (k, Some ''API key failed pattern check'')" by simp
  qed
  have c9: "getAPIKey [''OPENWEATHER_API_KEY'' \<mapsto>
         [CHR 0x20, CHR 0x09, CHR 0xC2, CHR 0xA0] @ ''abcdef0123456789abcdef0123456789''
           @ [CHR 0x20, CHR 0x0D, CHR 0x0A]] =
       (''abcdef0123456789abcdef0123456789'', None)"
    by (rule getAPIKey_padded_key)
  from c1 c2 c3 c4 c5 c6 c7 c8 c9 show ?thesis by blast
qed

theorem getAPIKey_cases_witness:
  "getAPIKey [''OPENWEATHER_API_KEY'' \<mapsto> ''abcdef0123456789abcdef0123456789''] =
     (''abcdef0123456789abcdef0123456789'', None)
   \<and> getAPIKey Map.empty = ([], Some ''OPENWEATHER_API_KEY is not set'')
   \<and> getAPIKey [''OPENWEATHER_API_KEY'' \<mapsto> ''def0123456789abcdef0123456789xyz''] =
       (''def0123456789abcdef0123456789xyz'', Some ''API key failed pattern check'')
   \<and> getAPIKey [''OPENWEATHER_API_KEY'' \<mapsto>
         concat [[CHR 0x20], [CHR 0x09]] @ ''abcdef0123456789abcdef0123456789''
           @ concat [[CHR 0x0A]]] =
       (''abcdef0123456789abcdef0123456789'', None)
   \<and> getAPIKey [''OPENWEATHER_API_KEY'' \<mapsto>
         concat [[CHR 0x0A], [CHR 0xE2, CHR 0x80, CHR 0x83]] @ ''def0123456789abcdef0123456789xyz''
           @ concat [[CHR 0x20], [CHR 0x20]]] =
       (''def0123456789abcdef0123456789xyz'', Some ''API key failed pattern check'')
   \<and> getAPIKey [''OPENWEATHER_API_KEY'' \<mapsto> concat [[CHR 0x20], [CHR 0x09], [CHR 0x0A]]] =
       ([], Some ''OPENWEATHER_API_KEY is not set'')"
proof -
  have h: "hex32 ''abcdef0123456789abcdef0123456789''" by (simp add: hex32_def)
  have n: "\<not> hex32 ''def0123456789abcdef0123456789xyz''" by (simp add: hex32_def)
  have ends: "''def0123456789abcdef0123456789xyz'' \<noteq> []"
    "hd ''def0123456789abcdef0123456789xyz'' \<notin> hd ` set space_runes"
    "last ''def0123456789abcdef0123456789xyz'' \<notin> last ` set space_runes"
    by (simp_all add: space_runes_def)
  have ws: "set [[CHR 0x20], [CHR 0x09]] \<subseteq> set space_runes"
    "set [[CHR 0x0A]] \<subseteq> set space_runes"
    "set [[CHR 0x0A], [CHR 0xE2, CHR 0x80, CHR 0x83]] \<subseteq> set space_runes"
    "set [[CHR 0x20], [CHR 0x20]] \<subseteq> set space_runes"
    "set [[CHR 0x20], [CHR 0x09], [CHR 0x0A]] \<subseteq> set space_runes"
    by (simp_all add: space_runes_def)
  have a: "getAPIKey [''OPENWEATHER_API_KEY'' \<mapsto> ''abcdef0123456789abcdef0123456789''] =
     (''abcdef0123456789abcdef0123456789'', None)"
    using getAPIKey_cases[of "[''OPENWEATHER_API_KEY'' \<mapsto> ''abcdef0123456789abcdef0123456789'']"]
      h by simp
  have b: "getAPIKey Map.empty = ([], Some ''OPENWEATHER_API_KEY is not set'')"
    using getAPIKey_cases[of Map.empty] by simp
  have c: "getAPIKey [''OPENWEATHER_API_KEY'' \<mapsto> ''def0123456789abcdef0123456789xyz''] =
       (''def0123456789abcdef0123456789xyz'', Some ''API key failed pattern check'')"
    using getAPIKey_cases[of "[''OPENWEATHER_API_KEY'' \<mapsto> ''def0123456789abcdef0123456789xyz'']"]
      n by (simp add: Getenv_def TrimSpace_bad_key)
  have d: "getAPIKey [''OPENWEATHER_API_KEY'' \<mapsto>
         concat [[CHR 0x20], [CHR 0x09]] @ ''abcdef0123456789abcdef0123456789''
           @ concat [[CHR 0x0A]]] =
       (''abcdef0123456789abcdef0123456789'', None)"
    using getAPIKey_cases[of "[''OPENWEATHER_API_KEY'' \<mapsto>
         concat [[CHR 0x20], [CHR 0x09]] @ ''abcdef0123456789abcdef0123456789''
           @ concat [[CHR 0x0A]]]" "[[CHR 0x20], [CHR 0x09]]" "[[CHR 0x0A]]"
         "''abcdef0123456789abcdef0123456789''"]
      h ws(1,2) by (simp only: fun_upd_same simp_thms)
  have e: "getAPIKey [''OPENWEATHER_API_KEY'' \<mapsto>
         concat [[CHR 0x0A], [CHR 0xE2, CHR 0x80, CHR 0x83]] @ ''def0123456789abcdef0123456789xyz''
           @ concat [[CHR 0x20], [CHR 0x20]]] =
       (''def0123456789abcdef0123456789xyz'', Some ''API key failed pattern check'')"
    using getAPIKey_cases[of "[''OPENWEATHER_API_KEY'' \<mapsto>
         concat [[CHR 0x0A], [CHR 0xE2, CHR 0x80, CHR 0x83]] @ ''def0123456789abcdef0123456789xyz''
           @ concat [[CHR 0x20], [CHR 0x20]]]" "[[CHR 0x0A], [CHR 0xE2, CHR 0x80, CHR 0x83]]"
         "[[CHR 0x20], [CHR 0x20]]" "''def0123456789abcdef0123456789xyz''"]
      n ends ws(3,4) by (simp only: fun_upd_same simp_thms)
  have f: "getAPIKey [''OPENWEATHER_API_KEY'' \<mapsto> concat [[CHR 0x20], [CHR 0x09], [CHR 0x0A]]] =
       ([], Some ''OPENWEATHER_API_KEY is not set'')"
    using getAPIKey_cases[of "[''OPENWEATHER_API_KEY'' \<mapsto> concat [[CHR 0x20], [CHR 0x09], [CHR 0x0A]]]"
         "[[CHR 0x20], [CHR 0x09], [CHR 0x0A]]"]
      ws(5) by (simp only: fun_upd_same simp_thms)
  from a b c d e f show ?thesis by blast
qed






text \<open>
  C1. The claim fails on the code: the handler reads \<^verbatim>\<open>weatherData.Weather[0]\<close> without
  looking at the length of the list. With a well-formed key, valid coordinates and an
  upstream answer that decodes to an empty list of conditions (the body \<^verbatim>\<open>{}\<close>, or the
  JSON error object that the API sends for a rejected key), the handler panics with an
  index out of range and sends no error response.
\<close>

theorem weatherHandler_empty_conditions:
  "weatherHandler
     (answering test_key \<lparr>Weather = [], Main = \<lparr>Temperature = Finite False 0\<rparr>\<rparr>) san_francisco
   = (Panic ''runtime error: index out of range [0] with length 0'', [])"
proof -
  let ?wd = "\<lparr>Weather = [], Main = \<lparr>Temperature = Finite False 0\<rparr>\<rparr>"
  have "weatherHandler (answering test_key ?wd) san_francisco = (weather_reply ?wd, [])"
    by (rule weatherHandler_reply[where k = test_key and e = None and b = "''{}''"
          and la = "Finite False (332271534304605 / 8796093022208)"
          and lo = "Finite True (538406215061445 / 4398046511104)"])
       (simp_all add: answering_def getAPIKey_test_key test_key_nonempty query_san_francisco
          validate_examples)
  then show ?thesis by (simp add: weather_reply_def)
qed

text \<open>
  C2. The claim fails on the code: the handler tests the key for emptiness and drops the
  error of \<open>getAPIKey\<close>. With a key that is set and fails the pattern check, \<open>getAPIKey\<close>
  returns the key with an error, and the handler goes on: for a malformed latitude it
  answers 400, and for valid coordinates it asks the upstream and answers 200.
\<close>

theorem weatherHandler_invalid_key_proceeds:
  "getAPIKey [''OPENWEATHER_API_KEY'' \<mapsto> bad_key] =
     (bad_key, Some ''API key failed pattern check'')
   \<and> weatherHandler (answering bad_key clear_sky) [''lat'' \<mapsto> ''invalid_latitude''] =
       (Response \<lparr>status = 400, content_type = ''text/plain; charset=utf-8'',
                  body = ''Invalid latitude\<newline>''\<rparr>,
        [''input error: invalid latitude format: invalid_latitude''])
   \<and> weatherHandler (answering bad_key clear_sky) san_francisco =
       (Response \<lparr>status = 200, content_type = ''text/plain'',
                  body = ''Current Temperature:\<newline>  Weather     : clear sky\<newline>  Temperature : Moderate (68F / 20C)''\<rparr>,
        [])"
proof -
  have k: "bad_key \<noteq> []" by (simp add: bad_key_def)
  have a: "weatherHandler (answering bad_key clear_sky) [''lat'' \<mapsto> ''invalid_latitude''] =
       (Response (http_Error ''Invalid latitude'' 400),
        [''input error: '' @ ''invalid latitude format: invalid_latitude''])"
    by (rule weatherHandler_bad_latitude[where k = bad_key
          and e = "Some ''API key failed pattern check''" and la = "Finite False 0"])
       (simp_all add: answering_def getAPIKey_bad_key k query_Get_def validate_examples)
  have "weatherHandler (answering bad_key clear_sky) san_francisco = (weather_reply clear_sky, [])"
    by (rule weatherHandler_reply[where k = bad_key
          and e = "Some ''API key failed pattern check''" and b = "''{}''"
          and la = "Finite False (332271534304605 / 8796093022208)"
          and lo = "Finite True (538406215061445 / 4398046511104)"])
       (simp_all add: answering_def getAPIKey_bad_key k query_san_francisco validate_examples)
  then have b: "weatherHandler (answering bad_key clear_sky) san_francisco =
       (Response \<lparr>status = 200, content_type = ''text/plain'',
                  body = ''Current Temperature:\<newline>  Weather     : clear sky\<newline>  Temperature : Moderate (68F / 20C)''\<rparr>,
        [])"
    by (simp add: weather_reply_def clear_sky_def getTemperature_20 Sprintf0_clear_sky)
  from a b getAPIKey_bad_key show ?thesis by (simp add: http_Error_def)
qed

text \<open>
  C3. The claim fails on the code: when \<^verbatim>\<open>http.Get\<close> or the decoder fails, the handler
  sends the text of the error to the client. For an upstream that cannot be reached that
  text holds the request URL, and with it the API key.
\<close>

theorem weatherHandler_leaks_upstream_error:
  "weatherHandler (unreachable test_key) san_francisco =
     (Response \<lparr>status = 500, content_type = ''text/plain; charset=utf-8'',
        body = ''Get '' @ [CHR 0x22] @
          ''https://api.openweathermap.org/data/2.5/weather?lat=37.774900&lon=-122.419400&units=metric&appid=''
          @ test_key @ [CHR 0x22] @
          '': dial tcp: lookup api.openweathermap.org: no such host\<newline>''\<rparr>, [])"
proof -
  let ?la = "Finite False (332271534304605 / 8796093022208)"
  let ?lo = "Finite True (538406215061445 / 4398046511104)"
  have u: "request_url ?la ?lo test_key =
      ''https://api.openweathermap.org/data/2.5/weather?lat=37.774900&lon=-122.419400&units=metric&appid=''
      @ test_key"
    unfolding request_url_def fmt_f_examples by simp
  have "weatherHandler (unreachable test_key) san_francisco =
      (Response (http_Error (''Get '' @ [CHR 0x22] @ request_url ?la ?lo test_key @ [CHR 0x22] @
        '': dial tcp: lookup api.openweathermap.org: no such host'') 500), [])"
    by (rule weatherHandler_get_error[where k = test_key and e = None and la = ?la and lo = ?lo])
       (simp_all add: unreachable_def getAPIKey_test_key test_key_nonempty query_san_francisco
          validate_examples)
  then show ?thesis unfolding u by (simp add: http_Error_def)
qed

text \<open>
  C4. The claim fails on the code for a description with a percent sign: the handler
  passes the text to send as the format of \<^verbatim>\<open>Fprintf\<close>. For the description
  \<^verbatim>\<open>overcast clouds: 85-100%\<close> the percent sign and the newline after it are printed as
  a directive without operand, and the second line of the body runs into the third.
\<close>

theorem weatherHandler_percent_description:
  "weatherHandler
     (answering test_key
        \<lparr>Weather = [\<lparr>Description = ''overcast clouds: 85-100%''\<rparr>],
         Main = \<lparr>Temperature = Finite False 20\<rparr>\<rparr>) san_francisco =
     (Response \<lparr>status = 200, content_type = ''text/plain'',
        body = ''Current Temperature:\<newline>  Weather     : overcast clouds: 85-100%!\<newline>(MISSING)  Temperature : Moderate (68F / 20C)''\<rparr>,
      [])"
proof -
  let ?wd = "\<lparr>Weather = [\<lparr>Description = ''overcast clouds: 85-100%''\<rparr>],
         Main = \<lparr>Temperature = Finite False 20\<rparr>\<rparr>"
  have "weatherHandler (answering test_key ?wd) san_francisco = (weather_reply ?wd, [])"
    by (rule weatherHandler_reply[where k = test_key and e = None and b = "''{}''"
          and la = "Finite False (332271534304605 / 8796093022208)"
          and lo = "Finite True (538406215061445 / 4398046511104)"])
       (simp_all add: answering_def getAPIKey_test_key test_key_nonempty query_san_francisco
          validate_examples)
  then show ?thesis by (simp add: weather_reply_def getTemperature_20 Sprintf0_overcast)
qed

text \<open>
  C5. The claim fails on the code for the string \<^verbatim>\<open>NaN\<close>: it parses as a float64, both
  range comparisons are false for NaN, and each validator returns NaN with no error,
  although NaN does not lie in the range.
\<close>

theorem validators_accept_NaN:
  "validateLatitude ''NaN'' = (NaN, None) \<and> validateLongitude ''NaN'' = (NaN, None)"
  by (simp add: validate_examples)





end
